theory Spec2Isabelle
  imports Main
begin

section \<open>The VEP lookup-table compiler (util/create_vep_lut.py)\<close>

text \<open>
  The compiler reads three whitespace-delimited tables and writes four.  A table is modelled
  by the list of its data rows, in file order, as \<^verbatim>\<open>np.genfromtxt\<close> delivers its
  columns: comment lines (the banner that \<^verbatim>\<open>create_vep_fs_lut\<close> writes between the
  reference rows and the new rows is one) and blank lines carry no row.  The parser is a library
  function and is not part of this development; numpy hands a file of exactly one row back as
  a scalar instead of a one-element array, so the lists stand for files of any other length
  and every concrete table below has at least two rows.  The rule file is parsed by
  \<^verbatim>\<open>load_rules\<close> of another module; the compiler reads component 0 (the kind) and
  component 2 (the output names) of every rule.
\<close>

subsection \<open>Data\<close>

type_synonym rgba = "int \<times> int \<times> int \<times> int"

text \<open>A row of a colour LUT: columns 0 (index), 1 (name) and 2 to 5 (colour).\<close>

record entry =
  index :: int
  name :: string
  color :: rgba

text \<open>A row of the target region file: columns 0 (cortical flag), 1 (name), 2 to 5 (colour).\<close>

record vep_row =
  cort_flag :: int
  reg :: string
  reg_color :: rgba

text \<open>A parsed rule: kind, argument, output names.\<close>

type_synonym rule = "string \<times> string \<times> string"

text \<open>
  What the compiler can raise.  Python raises \<^verbatim>\<open>AssertionError\<close> at lines 42, 60 and
  64, \<^verbatim>\<open>ValueError\<close> with the list of collisions at line 50,
  \<^verbatim>\<open>Exception\<close> with the region at line 56, and \<^verbatim>\<open>ValueError\<close> from
  \<^verbatim>\<open>list.index\<close> in the three derived builders; the constructors keep the six
  places apart.
\<close>

datatype error =
    MalformedRuleError
  | DuplicateColorError "(rgba \<times> string \<times> string) list"
  | MissingRuleError string
  | SubcortCoverageError
  | OrderingError
  | LookupError string

text \<open>The four output files; \<open>None\<close> is a file this run has not opened.\<close>

record files =
  vep_fs_lut_file :: "entry list option"
  vep_mrtrix_lut_file :: "entry list option"
  vep_subcort_file :: "int list option"
  vep_aparc_lut_file :: "entry list option"

definition SHIFT_LH :: int where
  "SHIFT_LH = 71000"

definition SHIFT_RH :: int where
  "SHIFT_RH = 72000"

subsection \<open>Python primitives\<close>

text \<open>\<^verbatim>\<open>s.split(c)\<close> for a one-character separator.\<close>

fun split_on :: "char \<Rightarrow> string \<Rightarrow> string list" where
  "split_on c [] = [[]]"
| "split_on c (x # xs) =
     (if x = c then [] # split_on c xs
      else (case split_on c xs of [] \<Rightarrow> [[x]] | w # ws \<Rightarrow> (x # w) # ws))"

text \<open>\<^verbatim>\<open>sub in s\<close> on strings.\<close>

fun str_in :: "string \<Rightarrow> string \<Rightarrow> bool" where
  "str_in sub [] = (sub = [])"
| "str_in sub (x # xs) = (take (length sub) (x # xs) = sub \<or> str_in sub xs)"

text \<open>\<^verbatim>\<open>xs.index(x)\<close>: the first position of \<open>x\<close>, or ValueError (\<open>None\<close>).\<close>

fun index_of :: "'a list \<Rightarrow> 'a \<Rightarrow> nat option" where
  "index_of [] x = None"
| "index_of (y # ys) x = (if y = x then Some 0 else map_option Suc (index_of ys x))"

text \<open>\<^verbatim>\<open>xs[bs]\<close> with a boolean array \<open>bs\<close>.\<close>

definition bool_index :: "'a list \<Rightarrow> bool list \<Rightarrow> 'a list" where
  "bool_index xs bs = map fst (filter snd (zip xs bs))"

subsection \<open>duplicates (lines 14 to 22)\<close>

fun duplicates_loop ::
  "('k \<rightharpoonup> 'v) \<Rightarrow> ('k \<times> 'v \<times> 'v) list \<Rightarrow> ('k \<times> 'v) list \<Rightarrow> ('k \<times> 'v \<times> 'v) list" where
  "duplicates_loop dct dups [] = dups"
| "duplicates_loop dct dups ((k, v) # kvs) =
     (case dct k of
        Some v0 \<Rightarrow> duplicates_loop dct (dups @ [(k, v0, v)]) kvs
      | None \<Rightarrow> duplicates_loop (dct(k \<mapsto> v)) dups kvs)"

definition duplicates :: "'k list \<Rightarrow> 'v list \<Rightarrow> ('k \<times> 'v \<times> 'v) list" where
  "duplicates keys vals = duplicates_loop Map.empty [] (zip keys vals)"

subsection \<open>The checks of create_luts (lines 31 to 64)\<close>

text \<open>Lines 34 to 38: the output names one rule contributes.\<close>

fun rule_outputs :: "rule \<Rightarrow> string list" where
  "rule_outputs (kind, arg, out) =
     (if kind \<in> set [''merge'', ''rename''] then [out]
      else if kind \<in> set [''split'', ''splitnl''] then split_on (CHR '','') out
      else [])"

text \<open>Line 41: the temporary names \<^verbatim>\<open>%0\<close> to \<^verbatim>\<open>%9\<close>.\<close>

definition temp_regions :: "string list" where
  "temp_regions = map (\<lambda>d. [CHR ''%'', d]) ''0123456789''"

definition newregs :: "rule list \<Rightarrow> string list" where
  "newregs rules =
     filter (\<lambda>r. r \<notin> set temp_regions) (concat (map rule_outputs rules))"

text \<open>Lines 54 to 56: the loop over the cortical regions raises at the first one without a rule.\<close>

fun check_cortical :: "string list \<Rightarrow> string list \<Rightarrow> error + unit" where
  "check_cortical nr [] = Inr ()"
| "check_cortical nr (r # rs) =
     (if (''%H-'' @ r) \<notin> set nr then Inl (MissingRuleError r)
      else check_cortical nr rs)"

text \<open>Line 60: the expression asserted for one subcortical region.\<close>

definition subcort_covered :: "string list \<Rightarrow> string list \<Rightarrow> string \<Rightarrow> bool" where
  "subcort_covered nr fs_regs r =
     ((''%H-'' @ r) \<in> set nr \<or>
      ((''Left-'' @ r) \<in> set fs_regs \<and> (''Right-'' @ r) \<in> set fs_regs))"

text \<open>Lines 59 to 60: the loop over the subcortical regions.\<close>

fun check_subcortical :: "string list \<Rightarrow> string list \<Rightarrow> string list \<Rightarrow> error + unit" where
  "check_subcortical nr fs_regs [] = Inr ()"
| "check_subcortical nr fs_regs (r # rs) =
     (if subcort_covered nr fs_regs r then check_subcortical nr fs_regs rs
      else Inl SubcortCoverageError)"

text \<open>Line 64: no flag is smaller than its successor.\<close>

definition cortical_first :: "bool list \<Rightarrow> bool" where
  "cortical_first vep_iscort =
     list_all (\<lambda>(a, b). a \<ge> b) (zip (butlast vep_iscort) (tl vep_iscort))"

text \<open>
  Everything \<^verbatim>\<open>create_luts\<close> does before it calls the first builder, in the order of
  the source: the rule names (line 42), the colours (lines 48 to 50), the cortical regions,
  the subcortical regions, the order of the rows.
\<close>

definition validate :: "string list \<Rightarrow> rule list \<Rightarrow> vep_row list \<Rightarrow> error + unit" where
  "validate fs_regs rules vep =
     (let nr = newregs rules in
      if \<not> list_all (str_in ''%H'') nr then Inl MalformedRuleError
      else
        let vep_regs = map reg vep;
            vep_iscort = map (\<lambda>row. cort_flag row \<noteq> 0) vep;
            vep_colors = map reg_color vep;
            duplicate_colors = duplicates vep_colors vep_regs
        in
          if length duplicate_colors > 0 then Inl (DuplicateColorError duplicate_colors)
          else
            (case check_cortical nr (bool_index vep_regs vep_iscort) of
               Inl e \<Rightarrow> Inl e
             | Inr _ \<Rightarrow>
                 (case check_subcortical nr fs_regs (bool_index vep_regs (map Not vep_iscort)) of
                    Inl e \<Rightarrow> Inl e
                  | Inr _ \<Rightarrow>
                      if cortical_first vep_iscort then Inr () else Inl OrderingError)))"

subsection \<open>create_vep_fs_lut (lines 83 to 98)\<close>

text \<open>
  Lines 91 to 98 for one hemisphere: \<open>i\<close> is the running counter, the list is
  \<^verbatim>\<open>zip(vep_regs, vep_colors)\<close>, the result is the rows written.
\<close>

fun hemi_loop :: "string \<Rightarrow> int \<Rightarrow> string list \<Rightarrow> int \<Rightarrow> (string \<times> rgba) list \<Rightarrow> entry list" where
  "hemi_loop hemi hnum fs_regs i [] = []"
| "hemi_loop hemi hnum fs_regs i ((r, c) # rest) =
     (let full_reg_name = hemi @ ''-'' @ r in
      if full_reg_name \<in> set fs_regs then hemi_loop hemi hnum fs_regs i rest
      else \<lparr>index = hnum + i, name = full_reg_name, color = c\<rparr>
             # hemi_loop hemi hnum fs_regs (i + 1) rest)"

definition new_entries ::
  "string \<Rightarrow> int \<Rightarrow> string list \<Rightarrow> rgba list \<Rightarrow> string list \<Rightarrow> entry list" where
  "new_entries hemi hnum vep_regs vep_colors fs_regs =
     hemi_loop hemi hnum fs_regs 1 (zip vep_regs vep_colors)"

text \<open>The rows of the combined LUT: the reference rows, then one block per hemisphere.\<close>

definition create_vep_fs_lut ::
  "string list \<Rightarrow> rgba list \<Rightarrow> string list \<Rightarrow> entry list \<Rightarrow> entry list" where
  "create_vep_fs_lut vep_regs vep_colors fs_regs lines =
     lines @ concat (map (\<lambda>(hemi, hnum). new_entries hemi hnum vep_regs vep_colors fs_regs)
                       [(''Left'', SHIFT_LH), (''Right'', SHIFT_RH)])"

subsection \<open>The derived builders\<close>

text \<open>
  Each builder opens its file and writes row by row; a failed \<^verbatim>\<open>names.index\<close> leaves
  the rows written so far.  A builder returns the rows written and the error raised, if any.
  The two nested loops over hemispheres and regions run through
  \<open>List.product [''Left'', ''Right''] vep_regs\<close>, the Left block first.
\<close>

definition unknown_row :: entry where
  "unknown_row = \<lparr>index = 0, name = ''Unknown'', color = (0, 0, 0, 0)\<rparr>"

text \<open>Lines 108 to 113.\<close>

fun mrtrix_loop ::
  "string list \<Rightarrow> rgba list \<Rightarrow> int \<Rightarrow> (string \<times> string) list \<Rightarrow> entry list \<times> error option" where
  "mrtrix_loop names colors i [] = ([], None)"
| "mrtrix_loop names colors i ((hemi, r) # rest) =
     (let regname = hemi @ ''-'' @ r in
      case index_of names regname of
        None \<Rightarrow> ([], Some (LookupError regname))
      | Some ind \<Rightarrow>
          (case mrtrix_loop names colors (i + 1) rest of
             (out, e) \<Rightarrow> (\<lparr>index = i, name = regname, color = colors ! ind\<rparr> # out, e)))"

definition create_vep_mrtrix_lut :: "string list \<Rightarrow> entry list \<Rightarrow> entry list \<times> error option" where
  "create_vep_mrtrix_lut vep_regs vep_fs_lut =
     (let names = map name vep_fs_lut; colors = map color vep_fs_lut in
      case mrtrix_loop names colors 1 (List.product [''Left'', ''Right''] vep_regs) of
        (out, e) \<Rightarrow> (unknown_row # out, e))"

text \<open>Lines 121 to 124.\<close>

fun subcort_loop ::
  "string list \<Rightarrow> int list \<Rightarrow> (string \<times> string) list \<Rightarrow> int list \<times> error option" where
  "subcort_loop fs_names fs_inds [] = ([], None)"
| "subcort_loop fs_names fs_inds ((hemi, r) # rest) =
     (let nm = hemi @ ''-'' @ r in
      case index_of fs_names nm of
        None \<Rightarrow> ([], Some (LookupError nm))
      | Some ind \<Rightarrow>
          (case subcort_loop fs_names fs_inds rest of
             (out, e) \<Rightarrow> (fs_inds ! ind # out, e)))"

definition create_subcort_list :: "string list \<Rightarrow> entry list \<Rightarrow> int list \<times> error option" where
  "create_subcort_list vep_subcort_regions vep_fs_lut =
     (let fs_names = map name vep_fs_lut; fs_inds = map index vep_fs_lut in
      subcort_loop fs_names fs_inds (List.product [''Left'', ''Right''] vep_subcort_regions))"

text \<open>Lines 78 to 80: \<open>i\<close> is the position \<^verbatim>\<open>enumerate\<close> counts.\<close>

fun parc_loop ::
  "string list \<Rightarrow> rgba list \<Rightarrow> int \<Rightarrow> string list \<Rightarrow> entry list \<times> error option" where
  "parc_loop names colors i [] = ([], None)"
| "parc_loop names colors i (r # rest) =
     (case index_of names (''Left-'' @ r) of
        None \<Rightarrow> ([], Some (LookupError (''Left-'' @ r)))
      | Some ind \<Rightarrow>
          (case parc_loop names colors (i + 1) rest of
             (out, e) \<Rightarrow> (\<lparr>index = i + 1, name = r, color = colors ! ind\<rparr> # out, e)))"

definition create_parc_lut :: "string list \<Rightarrow> entry list \<Rightarrow> entry list \<times> error option" where
  "create_parc_lut vep_regs vep_fs_lut =
     (let names = map name vep_fs_lut; colors = map color vep_fs_lut in
      case parc_loop names colors 0 vep_regs of
        (out, e) \<Rightarrow> (unknown_row # out, e))"

subsection \<open>create_luts (lines 25 to 69)\<close>

text \<open>
  The run on the three input tables and the state of the four output files: the error raised,
  if any, and the files afterwards.  The derived builders read the combined LUT that
  \<^verbatim>\<open>create_vep_fs_lut\<close> has just written.
\<close>

definition create_luts ::
  "entry list \<Rightarrow> rule list \<Rightarrow> vep_row list \<Rightarrow> files \<Rightarrow> error option \<times> files" where
  "create_luts fs_lut rules vep fl =
     (let fs_regs = map name fs_lut in
      case validate fs_regs rules vep of
        Inl e \<Rightarrow> (Some e, fl)
      | Inr _ \<Rightarrow>
          let vep_regs = map reg vep;
              vep_iscort = map (\<lambda>row. cort_flag row \<noteq> 0) vep;
              vep_colors = map reg_color vep;
              lut = create_vep_fs_lut vep_regs vep_colors fs_regs fs_lut;
              fl1 = fl\<lparr>vep_fs_lut_file := Some lut\<rparr>
          in
            (case create_vep_mrtrix_lut vep_regs lut of
               (mr, e2) \<Rightarrow>
                 let fl2 = fl1\<lparr>vep_mrtrix_lut_file := Some mr\<rparr> in
                 (case e2 of
                    Some e \<Rightarrow> (Some e, fl2)
                  | None \<Rightarrow>
                      (case create_subcort_list (bool_index vep_regs (map Not vep_iscort)) lut of
                         (sc, e3) \<Rightarrow>
                           let fl3 = fl2\<lparr>vep_subcort_file := Some sc\<rparr> in
                           (case e3 of
                              Some e \<Rightarrow> (Some e, fl3)
                            | None \<Rightarrow>
                                (case create_parc_lut (bool_index vep_regs vep_iscort) lut of
                                   (pc, e4) \<Rightarrow>
                                     (e4, fl3\<lparr>vep_aparc_lut_file := Some pc\<rparr>)))))))"

text \<open>
  The combined LUT as \<^verbatim>\<open>create_luts\<close> builds it at line 66: the three columns of
  the region table and the names of the reference table, which is copied in front.
\<close>

definition combined_lut :: "entry list \<Rightarrow> vep_row list \<Rightarrow> entry list" where
  "combined_lut fs_lut vep =
     create_vep_fs_lut (map reg vep) (map reg_color vep) (map name fs_lut) fs_lut"

subsection \<open>A small run\<close>

text \<open>
  A reference table that already holds the hippocampus of both hemispheres, four regions
  (two cortical, two subcortical) and the rules that produce three of them.  The region table
  gives the hippocampus another colour than the reference table does.
\<close>

definition fs_example :: "entry list" where
  "fs_example =
     [\<lparr>index = 0, name = ''Unknown'', color = (0, 0, 0, 0)\<rparr>,
      \<lparr>index = 17, name = ''Left-Hippocampus'', color = (220, 216, 20, 0)\<rparr>,
      \<lparr>index = 53, name = ''Right-Hippocampus'', color = (220, 216, 20, 0)\<rparr>]"

definition vep_example :: "vep_row list" where
  "vep_example =
     [\<lparr>cort_flag = 1, reg = ''Insula'', reg_color = (10, 20, 30, 0)\<rparr>,
      \<lparr>cort_flag = 1, reg = ''Cuneus'', reg_color = (40, 50, 60, 0)\<rparr>,
      \<lparr>cort_flag = 0, reg = ''Hippocampus'', reg_color = (1, 2, 3, 0)\<rparr>,
      \<lparr>cort_flag = 0, reg = ''Thalamus'', reg_color = (7, 8, 9, 0)\<rparr>]"

definition rules_example :: "rule list" where
  "rules_example =
     [(''rename'', ''insula'', ''%H-Insula''),
      (''split'', ''cuneus'', ''%H-Cuneus,%1''),
      (''merge'', ''Thalamus-Proper'', ''%H-Thalamus'')]"

text \<open>The same reference table with another colour in its row "Unknown".\<close>

definition fs_tinted :: "entry list" where
  "fs_tinted =
     [\<lparr>index = 0, name = ''Unknown'', color = (25, 5, 25, 0)\<rparr>,
      \<lparr>index = 17, name = ''Left-Hippocampus'', color = (220, 216, 20, 0)\<rparr>,
      \<lparr>index = 53, name = ''Right-Hippocampus'', color = (220, 216, 20, 0)\<rparr>]"

text \<open>The reference table of the small run with one more row at index 71002.\<close>

definition fs_high :: "entry list" where
  "fs_high = fs_example @ [\<lparr>index = 71002, name = ''Left-Extra'', color = (9, 9, 9, 0)\<rparr>]"

text \<open>
  The reference table of the small run with a row for the insula of one hemisphere only: of
  the Left one, and of the Right one.
\<close>

definition fs_left_insula :: "entry list" where
  "fs_left_insula =
     fs_example @ [\<lparr>index = 1035, name = ''Left-Insula'', color = (80, 196, 98, 0)\<rparr>]"

definition fs_right_insula :: "entry list" where
  "fs_right_insula =
     fs_example @ [\<lparr>index = 2035, name = ''Right-Insula'', color = (1, 1, 1, 0)\<rparr>]"

subsection \<open>The collisions of a colour table, in words\<close>

text \<open>
  For every row \<open>j\<close> of a table of (colour, region) pairs, in file order, whose colour some
  earlier row has: the colour, the region of the first row with this colour (\<open>map_of\<close> returns
  the first match), and the region of row \<open>j\<close>.
\<close>

definition collisions :: "('k \<times> 'v) list \<Rightarrow> ('k \<times> 'v \<times> 'v) list" where
  "collisions kvs =
     concat (map (\<lambda>j. case map_of (take j kvs) (fst (kvs ! j)) of
                         None \<Rightarrow> []
                       | Some v0 \<Rightarrow> [(fst (kvs ! j), v0, snd (kvs ! j))])
               [0..<length kvs])"

subsection \<open>Runs that fail a check\<close>

text \<open>
  A region table with three colour collisions; rules with an output name without the
  placeholder; rules for the thalamus only; rules for the two cortical regions only; a region
  table with a subcortical row before a cortical one; and the state in which none of the four
  output files exists.
\<close>

definition vep_dup :: "vep_row list" where
  "vep_dup =
     [\<lparr>cort_flag = 1, reg = ''Insula'', reg_color = (10, 20, 30, 0)\<rparr>,
      \<lparr>cort_flag = 1, reg = ''Cuneus'', reg_color = (40, 50, 60, 0)\<rparr>,
      \<lparr>cort_flag = 0, reg = ''Hippocampus'', reg_color = (10, 20, 30, 0)\<rparr>,
      \<lparr>cort_flag = 0, reg = ''Thalamus'', reg_color = (40, 50, 60, 0)\<rparr>,
      \<lparr>cort_flag = 0, reg = ''Amygdala'', reg_color = (10, 20, 30, 0)\<rparr>]"

definition rules_bad :: "rule list" where
  "rules_bad = [(''rename'', ''insula'', ''Insula''), (''rename'', ''cuneus'', ''%H-Cuneus'')]"

definition rules_thalamus :: "rule list" where
  "rules_thalamus = [(''merge'', ''Thalamus-Proper'', ''%H-Thalamus'')]"

definition rules_cortical :: "rule list" where
  "rules_cortical =
     [(''rename'', ''insula'', ''%H-Insula''), (''split'', ''cuneus'', ''%H-Cuneus,%1'')]"

definition vep_unordered :: "vep_row list" where
  "vep_unordered =
     [\<lparr>cort_flag = 0, reg = ''Thalamus'', reg_color = (7, 8, 9, 0)\<rparr>,
      \<lparr>cort_flag = 1, reg = ''Insula'', reg_color = (10, 20, 30, 0)\<rparr>]"

definition no_files :: files where
  "no_files = \<lparr>vep_fs_lut_file = None, vep_mrtrix_lut_file = None,
                vep_subcort_file = None, vep_aparc_lut_file = None\<rparr>"

section \<open>Properties\<close>

subsection \<open>Lookups\<close>

lemma index_of_None: "index_of xs x = None \<longleftrightarrow> x \<notin> set xs"
  by (induction xs) auto

lemma index_of_Some:
  "index_of xs x = Some i \<Longrightarrow> i < length xs \<and> xs ! i = x \<and> x \<notin> set (take i xs)"
  by (induction xs arbitrary: i) (auto split: if_splits)

lemma index_of_map_find:
  "index_of (map f xs) y = Some i \<Longrightarrow> find (\<lambda>e. f e = y) xs = Some (xs ! i)"
  by (induction xs arbitrary: i) (auto split: if_splits)

lemma index_of_map_Some:
  assumes "y \<in> f ` set xs"
  obtains i where "index_of (map f xs) y = Some i" "i < length xs"
    "find (\<lambda>e. f e = y) xs = Some (xs ! i)"
proof -
  from assms have "index_of (map f xs) y \<noteq> None" by (simp add: index_of_None)
  then obtain i where i: "index_of (map f xs) y = Some i" by auto
  from index_of_Some[OF i] have "i < length xs" by simp
  with i index_of_map_find[OF i] that show thesis by blast
qed

lemma find_append_in:
  "y \<in> f ` set xs \<Longrightarrow> find (\<lambda>e. f e = y) (xs @ ys) = find (\<lambda>e. f e = y) xs"
  by (induction xs) auto

lemma map_enumerate_snd: "map (\<lambda>(k, x). g x) (enumerate n xs) = map g xs"
  by (induction xs arbitrary: n) simp_all

lemma map_enumerate_fst: "map (\<lambda>(k, x). g k) (enumerate n xs) = map g [n..<n + length xs]"
proof -
  have "map (\<lambda>(k, x). g k) (enumerate n xs) = map (g \<circ> fst) (enumerate n xs)"
    by (simp add: case_prod_unfold comp_def)
  also have "\<dots> = map g (map fst (enumerate n xs))"
    by (simp only: map_map)
  also have "\<dots> = map g [n..<n + length xs]"
    by (simp only: map_fst_enumerate)
  finally show ?thesis .
qed

subsection \<open>The block of one hemisphere\<close>

lemma hemi_loop_closed:
  "hemi_loop hemi hnum fs_regs i rows =
     map (\<lambda>(k, (r, c)). \<lparr>index = hnum + i + int k, name = hemi @ ''-'' @ r, color = c\<rparr>)
       (enumerate 0 (filter (\<lambda>(r, c). hemi @ ''-'' @ r \<notin> set fs_regs) rows))"
proof (induction rows arbitrary: i)
  case Nil
  show ?case by simp
next
  case (Cons x rows)
  obtain r c where x: "x = (r, c)" by (cases x)
  show ?case
    by (simp add: x Cons.IH enumerate_Suc_eq Let_def case_prod_unfold comp_def algebra_simps)
qed

lemma hemi_loop_index:
  "map index (hemi_loop hemi hnum fs_regs i rows) =
     map (\<lambda>k. hnum + i + int k) [0..<length (hemi_loop hemi hnum fs_regs i rows)]"
proof -
  let ?kept = "filter (\<lambda>(r, c). hemi @ ''-'' @ r \<notin> set fs_regs) rows"
  have "map index (hemi_loop hemi hnum fs_regs i rows) =
      map (\<lambda>(k, x). hnum + i + int k) (enumerate 0 ?kept)"
    by (simp add: hemi_loop_closed case_prod_unfold comp_def)
  also have "\<dots> = map (\<lambda>k. hnum + i + int k) [0..<0 + length ?kept]"
    by (rule map_enumerate_fst)
  finally show ?thesis by (simp add: hemi_loop_closed)
qed

lemma hemi_loop_rows:
  "map (\<lambda>e. (name e, color e)) (hemi_loop hemi hnum fs_regs i rows) =
     map (\<lambda>(r, c). (hemi @ ''-'' @ r, c))
       (filter (\<lambda>(r, c). hemi @ ''-'' @ r \<notin> set fs_regs) rows)"
proof -
  let ?kept = "filter (\<lambda>(r, c). hemi @ ''-'' @ r \<notin> set fs_regs) rows"
  have "map (\<lambda>e. (name e, color e)) (hemi_loop hemi hnum fs_regs i rows) =
      map (\<lambda>(k, x). (hemi @ ''-'' @ fst x, snd x)) (enumerate 0 ?kept)"
    by (simp add: hemi_loop_closed case_prod_unfold comp_def)
  also have "\<dots> = map (\<lambda>x. (hemi @ ''-'' @ fst x, snd x)) ?kept"
    by (rule map_enumerate_snd)
  finally show ?thesis by (simp add: case_prod_unfold)
qed

text \<open>
  C5.  For each hemisphere the loop of \<^verbatim>\<open>create_vep_fs_lut\<close> runs through the regions
  in their order with a counter that starts at 1.  A region whose prefixed name is among the
  reference names is skipped and uses no index; every other region is written with its own
  colour, and the rows written carry the indices \<open>hnum + 1\<close>, \<open>hnum + 2\<close>, ... without a gap,
  in the order of the regions.  The combined LUT is the reference rows, the Left block at
  offset 71000 and the Right block at offset 72000.
\<close>

theorem create_vep_fs_lut_numbering:
  "create_vep_fs_lut vep_regs vep_colors fs_regs lines =
     lines @ new_entries ''Left'' SHIFT_LH vep_regs vep_colors fs_regs
           @ new_entries ''Right'' SHIFT_RH vep_regs vep_colors fs_regs
   \<and> map (\<lambda>e. (name e, color e)) (new_entries hemi hnum vep_regs vep_colors fs_regs) =
       map (\<lambda>(r, c). (hemi @ ''-'' @ r, c))
         (filter (\<lambda>(r, c). hemi @ ''-'' @ r \<notin> set fs_regs) (zip vep_regs vep_colors))
   \<and> map index (new_entries hemi hnum vep_regs vep_colors fs_regs) =
       map (\<lambda>k. hnum + int k)
         [1..<Suc (length (new_entries hemi hnum vep_regs vep_colors fs_regs))]"
proof -
  let ?new = "new_entries hemi hnum vep_regs vep_colors fs_regs"
  have "map index ?new = map (\<lambda>k. hnum + 1 + int k) [0..<length ?new]"
    unfolding new_entries_def by (rule hemi_loop_index)
  also have "\<dots> = map (\<lambda>k. hnum + int k) (map Suc [0..<length ?new])"
    by (simp add: comp_def algebra_simps)
  also have "map Suc [0..<length ?new] = [1..<Suc (length ?new)]"
    by (simp add: map_Suc_upt)
  finally have idx: "map index ?new = map (\<lambda>k. hnum + int k) [1..<Suc (length ?new)]" .
  have rows: "map (\<lambda>e. (name e, color e)) ?new =
       map (\<lambda>(r, c). (hemi @ ''-'' @ r, c))
         (filter (\<lambda>(r, c). hemi @ ''-'' @ r \<notin> set fs_regs) (zip vep_regs vep_colors))"
    unfolding new_entries_def by (rule hemi_loop_rows)
  have whole: "create_vep_fs_lut vep_regs vep_colors fs_regs lines =
     lines @ new_entries ''Left'' SHIFT_LH vep_regs vep_colors fs_regs
           @ new_entries ''Right'' SHIFT_RH vep_regs vep_colors fs_regs"
    by (simp add: create_vep_fs_lut_def)
  from whole rows idx show ?thesis by blast
qed

text \<open>
  On the small run: the hippocampus is in the reference table and is skipped, so the thalamus
  is the third new row of each hemisphere.
\<close>

theorem create_vep_fs_lut_numbering_witness:
  "create_vep_fs_lut (map reg vep_example) (map reg_color vep_example)
       (map name fs_example) fs_example =
     fs_example @
     [\<lparr>index = 71001, name = ''Left-Insula'', color = (10, 20, 30, 0)\<rparr>,
      \<lparr>index = 71002, name = ''Left-Cuneus'', color = (40, 50, 60, 0)\<rparr>,
      \<lparr>index = 71003, name = ''Left-Thalamus'', color = (7, 8, 9, 0)\<rparr>,
      \<lparr>index = 72001, name = ''Right-Insula'', color = (10, 20, 30, 0)\<rparr>,
      \<lparr>index = 72002, name = ''Right-Cuneus'', color = (40, 50, 60, 0)\<rparr>,
      \<lparr>index = 72003, name = ''Right-Thalamus'', color = (7, 8, 9, 0)\<rparr>]
   \<and> map index (new_entries ''Right'' SHIFT_RH (map reg vep_example) (map reg_color vep_example)
         (map name fs_example)) = [72001, 72002, 72003]"
  using create_vep_fs_lut_numbering[of "map reg vep_example" "map reg_color vep_example"
      "map name fs_example" fs_example "''Right''" SHIFT_RH]
  by (simp add: new_entries_def vep_example_def fs_example_def SHIFT_LH_def SHIFT_RH_def)

subsection \<open>The derived builders on the combined LUT\<close>

lemma mrtrix_loop_all_found:
  assumes "list_all (\<lambda>(h, r). h @ ''-'' @ r \<in> name ` set lut) items"
  shows "mrtrix_loop (map name lut) (map color lut) i items =
     (map (\<lambda>(k, (h, r)). \<lparr>index = i + int k, name = h @ ''-'' @ r,
              color = color (the (find (\<lambda>e. name e = h @ ''-'' @ r) lut))\<rparr>)
        (enumerate 0 items), None)"
  using assms
proof (induction items arbitrary: i)
  case Nil
  show ?case by simp
next
  case (Cons x items)
  obtain h r where x: "x = (h, r)" by (cases x)
  from Cons.prems x have in_lut: "h @ ''-'' @ r \<in> name ` set lut"
    and rest: "list_all (\<lambda>(h, r). h @ ''-'' @ r \<in> name ` set lut) items" by simp_all
  from in_lut obtain ind where ind: "index_of (map name lut) (h @ ''-'' @ r) = Some ind"
    "ind < length lut" "find (\<lambda>e. name e = h @ ''-'' @ r) lut = Some (lut ! ind)"
    by (rule index_of_map_Some)
  show ?case
    using ind
    by (simp add: x Let_def Cons.IH[OF rest] enumerate_Suc_eq case_prod_unfold comp_def
        algebra_simps)
qed

lemma subcort_loop_all_found:
  assumes "list_all (\<lambda>(h, r). h @ ''-'' @ r \<in> name ` set lut) items"
  shows "subcort_loop (map name lut) (map index lut) items =
     (map (\<lambda>(h, r). index (the (find (\<lambda>e. name e = h @ ''-'' @ r) lut))) items, None)"
  using assms
proof (induction items)
  case Nil
  show ?case by simp
next
  case (Cons x items)
  obtain h r where x: "x = (h, r)" by (cases x)
  from Cons.prems x have in_lut: "h @ ''-'' @ r \<in> name ` set lut"
    and rest: "list_all (\<lambda>(h, r). h @ ''-'' @ r \<in> name ` set lut) items" by simp_all
  from in_lut obtain ind where ind: "index_of (map name lut) (h @ ''-'' @ r) = Some ind"
    "ind < length lut" "find (\<lambda>e. name e = h @ ''-'' @ r) lut = Some (lut ! ind)"
    by (rule index_of_map_Some)
  show ?case
    using ind by (simp add: x Let_def Cons.IH[OF rest])
qed

lemma parc_loop_all_found:
  assumes "list_all (\<lambda>r. ''Left-'' @ r \<in> name ` set lut) rs"
  shows "parc_loop (map name lut) (map color lut) i rs =
     (map (\<lambda>(k, r). \<lparr>index = i + int k + 1, name = r,
              color = color (the (find (\<lambda>e. name e = ''Left-'' @ r) lut))\<rparr>)
        (enumerate 0 rs), None)"
  using assms
proof (induction rs arbitrary: i)
  case Nil
  show ?case by simp
next
  case (Cons r rs)
  from Cons.prems have in_lut: "''Left-'' @ r \<in> name ` set lut"
    and rest: "list_all (\<lambda>r. ''Left-'' @ r \<in> name ` set lut) rs" by simp_all
  from in_lut obtain ind where ind: "index_of (map name lut) (''Left-'' @ r) = Some ind"
    "ind < length lut" "find (\<lambda>e. name e = ''Left-'' @ r) lut = Some (lut ! ind)"
    by (rule index_of_map_Some)
  show ?case
    using ind
    by (simp add: Cons.IH[OF rest] enumerate_Suc_eq case_prod_unfold comp_def algebra_simps)
qed

lemma zip_rows:
  "zip (map reg vep) (map reg_color vep) = map (\<lambda>row. (reg row, reg_color row)) vep"
  by (induction vep) auto

lemma new_entries_names:
  "map name (new_entries hemi hnum vep_regs vep_colors fs_regs) =
     filter (\<lambda>n. n \<notin> set fs_regs)
       (map (\<lambda>(r, c). hemi @ ''-'' @ r) (zip vep_regs vep_colors))"
proof -
  have "map name (new_entries hemi hnum vep_regs vep_colors fs_regs) =
      map fst (map (\<lambda>e. (name e, color e)) (new_entries hemi hnum vep_regs vep_colors fs_regs))"
    by (simp add: comp_def)
  also have "\<dots> = map (\<lambda>x. hemi @ ''-'' @ fst x)
        (filter (\<lambda>(r, c). hemi @ ''-'' @ r \<notin> set fs_regs) (zip vep_regs vep_colors))"
    unfolding new_entries_def hemi_loop_rows by (simp add: comp_def case_prod_unfold)
  also have "\<dots> = filter (\<lambda>n. n \<notin> set fs_regs)
        (map (\<lambda>(r, c). hemi @ ''-'' @ r) (zip vep_regs vep_colors))"
    by (simp add: filter_map comp_def case_prod_unfold)
  finally show ?thesis .
qed

lemma combined_lut_eq:
  "combined_lut fs_lut vep =
     fs_lut @ new_entries ''Left'' SHIFT_LH (map reg vep) (map reg_color vep) (map name fs_lut)
            @ new_entries ''Right'' SHIFT_RH (map reg vep) (map reg_color vep) (map name fs_lut)"
  by (simp add: combined_lut_def create_vep_fs_lut_def)

text \<open>Every region has a row for each hemisphere in the combined LUT: an old or a new one.\<close>

lemma combined_lut_covers:
  assumes "row \<in> set vep"
  shows "''Left-'' @ reg row \<in> name ` set (combined_lut fs_lut vep)"
    and "''Right-'' @ reg row \<in> name ` set (combined_lut fs_lut vep)"
proof -
  have names: "\<And>hemi hnum. hemi @ ''-'' @ reg row \<notin> name ` set fs_lut \<Longrightarrow>
      hemi @ ''-'' @ reg row \<in> set (map name
         (new_entries hemi hnum (map reg vep) (map reg_color vep) (map name fs_lut)))"
    using assms unfolding new_entries_names zip_rows by (auto simp: image_iff)
  show "''Left-'' @ reg row \<in> name ` set (combined_lut fs_lut vep)"
    using names[of "''Left''" SHIFT_LH] unfolding combined_lut_eq by auto
  show "''Right-'' @ reg row \<in> name ` set (combined_lut fs_lut vep)"
    using names[of "''Right''" SHIFT_RH] unfolding combined_lut_eq by auto
qed

lemma items_covered:
  assumes "set rs \<subseteq> reg ` set vep"
  shows "list_all (\<lambda>(h, r). h @ ''-'' @ r \<in> name ` set (combined_lut fs_lut vep))
           (List.product [''Left'', ''Right''] rs)"
  using assms combined_lut_covers[of _ vep fs_lut]
  by (auto simp: list_all_iff)

lemma upt_int_Cons: "map int [0..<Suc m] = 0 # map (\<lambda>k. 1 + int k) [0..<m]"
proof -
  have "[0..<Suc m] = 0 # map Suc [0..<m]"
    by (simp add: map_Suc_upt upt_conv_Cons del: upt_Suc)
  then show ?thesis by (simp add: comp_def del: upt_Suc)
qed

lemma mrtrix_closed:
  assumes "set rs \<subseteq> reg ` set vep"
  shows "create_vep_mrtrix_lut rs (combined_lut fs_lut vep) =
     (unknown_row # map (\<lambda>(k, (h, r)). \<lparr>index = 1 + int k, name = h @ ''-'' @ r,
              color = color (the (find (\<lambda>e. name e = h @ ''-'' @ r) (combined_lut fs_lut vep)))\<rparr>)
           (enumerate 0 (List.product [''Left'', ''Right''] rs)), None)"
  unfolding create_vep_mrtrix_lut_def Let_def mrtrix_loop_all_found[OF items_covered[OF assms]]
  by simp

subsection \<open>The small run, evaluated\<close>

lemma combined_example:
  "combined_lut fs_example vep_example = fs_example @
     [\<lparr>index = 71001, name = ''Left-Insula'', color = (10, 20, 30, 0)\<rparr>,
      \<lparr>index = 71002, name = ''Left-Cuneus'', color = (40, 50, 60, 0)\<rparr>,
      \<lparr>index = 71003, name = ''Left-Thalamus'', color = (7, 8, 9, 0)\<rparr>,
      \<lparr>index = 72001, name = ''Right-Insula'', color = (10, 20, 30, 0)\<rparr>,
      \<lparr>index = 72002, name = ''Right-Cuneus'', color = (40, 50, 60, 0)\<rparr>,
      \<lparr>index = 72003, name = ''Right-Thalamus'', color = (7, 8, 9, 0)\<rparr>]"
  by (simp add: combined_lut_def create_vep_fs_lut_def new_entries_def vep_example_def
      fs_example_def SHIFT_LH_def SHIFT_RH_def)

lemma mrtrix_example:
  "create_vep_mrtrix_lut (map reg vep_example) (combined_lut fs_example vep_example) =
    ([\<lparr>index = 0, name = ''Unknown'', color = (0, 0, 0, 0)\<rparr>,
      \<lparr>index = 1, name = ''Left-Insula'', color = (10, 20, 30, 0)\<rparr>,
      \<lparr>index = 2, name = ''Left-Cuneus'', color = (40, 50, 60, 0)\<rparr>,
      \<lparr>index = 3, name = ''Left-Hippocampus'', color = (220, 216, 20, 0)\<rparr>,
      \<lparr>index = 4, name = ''Left-Thalamus'', color = (7, 8, 9, 0)\<rparr>,
      \<lparr>index = 5, name = ''Right-Insula'', color = (10, 20, 30, 0)\<rparr>,
      \<lparr>index = 6, name = ''Right-Cuneus'', color = (40, 50, 60, 0)\<rparr>,
      \<lparr>index = 7, name = ''Right-Hippocampus'', color = (220, 216, 20, 0)\<rparr>,
      \<lparr>index = 8, name = ''Right-Thalamus'', color = (7, 8, 9, 0)\<rparr>], None)"
  unfolding combined_example
  by (simp add: create_vep_mrtrix_lut_def Let_def fs_example_def vep_example_def unknown_row_def)

subsection \<open>The renumbered LUT\<close>

text \<open>
  C2, as the claim puts it: the indices of the renumbered LUT are \<open>0..N\<close> with \<open>N\<close> the number
  of rows of the region table.  The small run has four regions and nine rows, numbered 0 to 8:
  every region is written once for each hemisphere.
\<close>

theorem mrtrix_indices_counterexample:
  "\<not> (map index (fst (create_vep_mrtrix_lut (map reg vep_example)
                         (combined_lut fs_example vep_example)))
        = map int [0..<Suc (length vep_example)])"
  unfolding mrtrix_example by (simp add: vep_example_def)

text \<open>
  C2, amended.  On the combined LUT that \<^verbatim>\<open>create_vep_fs_lut\<close> has written,
  \<^verbatim>\<open>create_vep_mrtrix_lut\<close> finds every name and writes the indices \<open>0..N\<close> without a
  gap, where \<open>N\<close> is twice the number of rows of the region table: index 0 is the row
  "Unknown", and the indices from 1 run through the Left block and then the Right block, each
  in the order of the regions.
\<close>

theorem mrtrix_indices:
  "snd (create_vep_mrtrix_lut (map reg vep) (combined_lut fs_lut vep)) = None
   \<and> map index (fst (create_vep_mrtrix_lut (map reg vep) (combined_lut fs_lut vep))) =
       map int [0..<Suc (2 * length vep)]
   \<and> map name (fst (create_vep_mrtrix_lut (map reg vep) (combined_lut fs_lut vep))) =
       ''Unknown'' # map (\<lambda>row. ''Left-'' @ reg row) vep
                   @ map (\<lambda>row. ''Right-'' @ reg row) vep"
proof -
  let ?lut = "combined_lut fs_lut vep"
  let ?items = "List.product [''Left'', ''Right''] (map reg vep)"
  let ?F = "\<lambda>(k, (h, r)). \<lparr>index = 1 + int k, name = h @ ''-'' @ r,
              color = color (the (find (\<lambda>e. name e = h @ ''-'' @ r) ?lut))\<rparr>"
  have sub: "set (map reg vep) \<subseteq> reg ` set vep" by simp
  note closed = mrtrix_closed[OF sub, of fs_lut]
  have len: "length ?items = 2 * length vep" by simp
  have "map index (map ?F (enumerate 0 ?items)) =
      map (\<lambda>(k, x). 1 + int k) (enumerate 0 ?items)"
    by (simp add: case_prod_unfold comp_def)
  also have "\<dots> = map (\<lambda>k. 1 + int k) [0..<0 + length ?items]"
    by (rule map_enumerate_fst)
  finally have idx: "map index (map ?F (enumerate 0 ?items)) =
      map (\<lambda>k. 1 + int k) [0..<2 * length vep]"
    by (simp only: len add_0)
  have "map name (map ?F (enumerate 0 ?items)) =
      map (\<lambda>(k, x). fst x @ ''-'' @ snd x) (enumerate 0 ?items)"
    by (simp add: case_prod_unfold comp_def)
  also have "\<dots> = map (\<lambda>x. fst x @ ''-'' @ snd x) ?items"
    by (rule map_enumerate_snd)
  finally have nms: "map name (map ?F (enumerate 0 ?items)) =
      map (\<lambda>row. ''Left-'' @ reg row) vep @ map (\<lambda>row. ''Right-'' @ reg row) vep"
    by (simp add: comp_def)
  have a: "snd (create_vep_mrtrix_lut (map reg vep) ?lut) = None"
    by (simp only: closed snd_conv)
  have b: "map index (fst (create_vep_mrtrix_lut (map reg vep) ?lut)) =
      map int [0..<Suc (2 * length vep)]"
    by (simp only: closed fst_conv list.map idx upt_int_Cons) (simp add: unknown_row_def)
  have c: "map name (fst (create_vep_mrtrix_lut (map reg vep) ?lut)) =
       ''Unknown'' # map (\<lambda>row. ''Left-'' @ reg row) vep
                   @ map (\<lambda>row. ''Right-'' @ reg row) vep"
    by (simp only: closed fst_conv list.map nms) (simp add: unknown_row_def)
  from a b c show ?thesis by blast
qed

theorem mrtrix_indices_witness:
  "map index (fst (create_vep_mrtrix_lut (map reg vep_example)
                     (combined_lut fs_example vep_example)))
     = [0, 1, 2, 3, 4, 5, 6, 7, 8]"
  using mrtrix_indices[of vep_example fs_example]
  by (simp add: vep_example_def upt_conv_Cons del: upt_Suc)

lemma bool_index_map: "bool_index (map f xs) (map g xs) = map f (filter g xs)"
  by (induction xs) (simp_all add: bool_index_def)

lemma bool_index_not_map: "bool_index (map f xs) (map Not (map g xs)) = map f (filter (\<lambda>x. \<not> g x) xs)"
  by (induction xs) (simp_all add: bool_index_def)

lemma mrtrix_loop_colors:
  "list_all (\<lambda>row. map_option color (find (\<lambda>e. name e = name row) lut) = Some (color row))
     (fst (mrtrix_loop (map name lut) (map color lut) i items))"
proof (induction items arbitrary: i)
  case Nil
  show ?case by simp
next
  case (Cons x items)
  obtain h r where x: "x = (h, r)" by (cases x)
  show ?case
  proof (cases "index_of (map name lut) (h @ ''-'' @ r)")
    case None
    then show ?thesis by (simp add: x Let_def)
  next
    case (Some ind)
    from index_of_Some[OF Some] have "ind < length lut" by simp
    with Some index_of_map_find[OF Some] Cons.IH[of "i + 1"] show ?thesis
      by (simp add: x Let_def case_prod_unfold)
  qed
qed

lemma parc_loop_colors:
  "list_all (\<lambda>row. map_option color (find (\<lambda>e. name e = ''Left-'' @ name row) lut) = Some (color row))
     (fst (parc_loop (map name lut) (map color lut) i rs))"
proof (induction rs arbitrary: i)
  case Nil
  show ?case by simp
next
  case (Cons r rs)
  show ?case
  proof (cases "index_of (map name lut) (''Left-'' @ r)")
    case None
    then show ?thesis by simp
  next
    case (Some ind)
    from index_of_Some[OF Some] have "ind < length lut" by simp
    with Some index_of_map_find[OF Some] Cons.IH[of "i + 1"] show ?thesis
      by (simp add: case_prod_unfold)
  qed
qed

lemma subcort_loop_indices:
  "map Some (fst (subcort_loop (map name lut) (map index lut) items)) =
     map (\<lambda>(h, r). map_option index (find (\<lambda>e. name e = h @ ''-'' @ r) lut))
       (take (length (fst (subcort_loop (map name lut) (map index lut) items))) items)"
proof (induction items)
  case Nil
  show ?case by simp
next
  case (Cons x items)
  obtain h r where x: "x = (h, r)" by (cases x)
  show ?case
  proof (cases "index_of (map name lut) (h @ ''-'' @ r)")
    case None
    then show ?thesis by (simp add: x Let_def)
  next
    case (Some ind)
    from index_of_Some[OF Some] have "ind < length lut" by simp
    with Some index_of_map_find[OF Some] Cons.IH show ?thesis
      by (simp add: x Let_def case_prod_unfold)
  qed
qed

lemma mrtrix_rows_colors:
  "list_all (\<lambda>row. map_option color (find (\<lambda>e. name e = name row) lut) = Some (color row))
     (tl (fst (create_vep_mrtrix_lut vep_regs lut)))"
  using mrtrix_loop_colors[of lut 1 "List.product [''Left'', ''Right''] vep_regs"]
  by (simp add: create_vep_mrtrix_lut_def Let_def case_prod_unfold)

lemma parc_rows_colors:
  "list_all (\<lambda>row. map_option color (find (\<lambda>e. name e = ''Left-'' @ name row) lut) = Some (color row))
     (tl (fst (create_parc_lut rs lut)))"
  using parc_loop_colors[of lut 0 rs]
  by (simp add: create_parc_lut_def Let_def case_prod_unfold)

lemma parc_closed:
  assumes "set rs \<subseteq> reg ` set vep"
  shows "create_parc_lut rs (combined_lut fs_lut vep) =
     (unknown_row # map (\<lambda>(k, r). \<lparr>index = int k + 1, name = r,
              color = color (the (find (\<lambda>e. name e = ''Left-'' @ r) (combined_lut fs_lut vep)))\<rparr>)
           (enumerate 0 rs), None)"
proof -
  have "list_all (\<lambda>r. ''Left-'' @ r \<in> name ` set (combined_lut fs_lut vep)) rs"
    using assms combined_lut_covers(1)[of _ vep fs_lut] by (auto simp: list_all_iff)
  from parc_loop_all_found[OF this, of 0] show ?thesis
    by (simp add: create_parc_lut_def Let_def)
qed

lemma subcort_closed:
  assumes "set rs \<subseteq> reg ` set vep"
  shows "create_subcort_list rs (combined_lut fs_lut vep) =
     (map (\<lambda>r. index (the (find (\<lambda>e. name e = ''Left-'' @ r) (combined_lut fs_lut vep)))) rs @
      map (\<lambda>r. index (the (find (\<lambda>e. name e = ''Right-'' @ r) (combined_lut fs_lut vep)))) rs, None)"
  unfolding create_subcort_list_def Let_def subcort_loop_all_found[OF items_covered[OF assms]]
  by (simp add: comp_def)

lemma parc_names:
  assumes "set rs \<subseteq> reg ` set vep"
  shows "map name (tl (fst (create_parc_lut rs (combined_lut fs_lut vep)))) = rs"
proof -
  have "map name (tl (fst (create_parc_lut rs (combined_lut fs_lut vep)))) =
     map (\<lambda>(k, r). r) (enumerate 0 rs)"
    by (simp add: parc_closed[OF assms] case_prod_unfold comp_def)
  also have "\<dots> = map (\<lambda>r. r) rs" by (rule map_enumerate_snd)
  finally show ?thesis by simp
qed

lemma parc_example:
  "create_parc_lut (bool_index (map reg vep_example) (map (\<lambda>row. cort_flag row \<noteq> 0) vep_example))
      (combined_lut fs_example vep_example) =
    ([\<lparr>index = 0, name = ''Unknown'', color = (0, 0, 0, 0)\<rparr>,
      \<lparr>index = 1, name = ''Insula'', color = (10, 20, 30, 0)\<rparr>,
      \<lparr>index = 2, name = ''Cuneus'', color = (40, 50, 60, 0)\<rparr>], None)"
  unfolding combined_example
  by (simp add: create_parc_lut_def bool_index_def Let_def fs_example_def vep_example_def unknown_row_def)

lemma combined_tinted:
  "combined_lut fs_tinted vep_example = fs_tinted @
     [\<lparr>index = 71001, name = ''Left-Insula'', color = (10, 20, 30, 0)\<rparr>,
      \<lparr>index = 71002, name = ''Left-Cuneus'', color = (40, 50, 60, 0)\<rparr>,
      \<lparr>index = 71003, name = ''Left-Thalamus'', color = (7, 8, 9, 0)\<rparr>,
      \<lparr>index = 72001, name = ''Right-Insula'', color = (10, 20, 30, 0)\<rparr>,
      \<lparr>index = 72002, name = ''Right-Cuneus'', color = (40, 50, 60, 0)\<rparr>,
      \<lparr>index = 72003, name = ''Right-Thalamus'', color = (7, 8, 9, 0)\<rparr>]"
  by (simp add: combined_lut_def create_vep_fs_lut_def new_entries_def vep_example_def
      fs_tinted_def SHIFT_LH_def SHIFT_RH_def)

subsection \<open>Colours of the derived LUTs\<close>

text \<open>
  C3, as the claim puts it: every name that the combined LUT and the renumbered LUT both hold
  has the same colour in both.  The renumbered LUT always starts with the row "Unknown" in
  colour 0 0 0 0; a reference table whose own row "Unknown" has another colour passes all
  checks, and the two tables then disagree on that name.
\<close>

theorem derived_colors_counterexample:
  "validate (map name fs_tinted) rules_example vep_example = Inr ()
   \<and> name (combined_lut fs_tinted vep_example ! 0) = ''Unknown''
   \<and> color (combined_lut fs_tinted vep_example ! 0) = (25, 5, 25, 0)
   \<and> name (fst (create_vep_mrtrix_lut (map reg vep_example) (combined_lut fs_tinted vep_example)) ! 0) = ''Unknown''
   \<and> color (fst (create_vep_mrtrix_lut (map reg vep_example) (combined_lut fs_tinted vep_example)) ! 0) = (0, 0, 0, 0)
   \<and> \<not> list_all (\<lambda>row. map_option color (find (\<lambda>e. name e = name row) (combined_lut fs_tinted vep_example)) = Some (color row))
     (fst (create_vep_mrtrix_lut (map reg vep_example) (combined_lut fs_tinted vep_example)))"
proof -
  have v: "validate (map name fs_tinted) rules_example vep_example = Inr ()"
    by (simp add: validate_def fs_tinted_def rules_example_def vep_example_def newregs_def
        temp_regions_def duplicates_def bool_index_def subcort_covered_def cortical_first_def Let_def)
  have hd: "fst (create_vep_mrtrix_lut (map reg vep_example) (combined_lut fs_tinted vep_example)) ! 0 = unknown_row"
    by (simp add: create_vep_mrtrix_lut_def Let_def case_prod_unfold)
  have ne: "fst (create_vep_mrtrix_lut (map reg vep_example) (combined_lut fs_tinted vep_example)) =
      unknown_row # tl (fst (create_vep_mrtrix_lut (map reg vep_example) (combined_lut fs_tinted vep_example)))"
    by (simp add: create_vep_mrtrix_lut_def Let_def case_prod_unfold)
  have f: "find (\<lambda>e. name e = ''Unknown'') (combined_lut fs_tinted vep_example) = Some \<lparr>index = 0, name = ''Unknown'', color = (25, 5, 25, 0)\<rparr>"
    unfolding combined_tinted by (simp add: fs_tinted_def)
  have n: "\<not> list_all (\<lambda>row. map_option color (find (\<lambda>e. name e = name row) (combined_lut fs_tinted vep_example)) = Some (color row))
     (fst (create_vep_mrtrix_lut (map reg vep_example) (combined_lut fs_tinted vep_example)))"
    by (subst ne) (simp add: f unknown_row_def)
  show ?thesis using v hd n unfolding combined_tinted by (simp add: fs_tinted_def unknown_row_def)
qed

text \<open>
  C3, amended.  Whatever combined LUT the builders read, every row that
  \<^verbatim>\<open>create_vep_mrtrix_lut\<close> writes after the fixed first row "Unknown" carries the
  colour of the first row of that name in the combined LUT, and every row that
  \<^verbatim>\<open>create_parc_lut\<close> writes after its first row carries the colour of the first row
  named "Left-" plus the region in the combined LUT.  On the combined LUT that
  \<^verbatim>\<open>create_vep_fs_lut\<close> has written, these rows are all regions of both hemispheres
  and all cortical regions.
\<close>

theorem derived_colors:
  "list_all (\<lambda>row. map_option color (find (\<lambda>e. name e = name row) lut) = Some (color row))
     (tl (fst (create_vep_mrtrix_lut vep_regs lut)))
   \<and> list_all (\<lambda>row. map_option color (find (\<lambda>e. name e = ''Left-'' @ name row) lut) = Some (color row))
     (tl (fst (create_parc_lut cort_regs lut)))
   \<and> map name (tl (fst (create_vep_mrtrix_lut (map reg vep) (combined_lut fs_lut vep)))) =
       map (\<lambda>row. ''Left-'' @ reg row) vep @ map (\<lambda>row. ''Right-'' @ reg row) vep
   \<and> map name (tl (fst (create_parc_lut
         (bool_index (map reg vep) (map (\<lambda>row. cort_flag row \<noteq> 0) vep)) (combined_lut fs_lut vep)))) =
       bool_index (map reg vep) (map (\<lambda>row. cort_flag row \<noteq> 0) vep)"
proof -
  have sub: "set (map reg vep) \<subseteq> reg ` set vep" by simp
  have c: "map name (tl (fst (create_vep_mrtrix_lut (map reg vep) (combined_lut fs_lut vep)))) =
       map (\<lambda>row. ''Left-'' @ reg row) vep @ map (\<lambda>row. ''Right-'' @ reg row) vep"
  proof -
    let ?items = "List.product [''Left'', ''Right''] (map reg vep)"
    have "map name (tl (fst (create_vep_mrtrix_lut (map reg vep) (combined_lut fs_lut vep)))) =
        map (\<lambda>(k, x). fst x @ ''-'' @ snd x) (enumerate 0 ?items)"
      by (simp add: mrtrix_closed[OF sub] case_prod_unfold comp_def)
    also have "\<dots> = map (\<lambda>x. fst x @ ''-'' @ snd x) ?items"
      by (rule map_enumerate_snd)
    finally show ?thesis by (simp add: comp_def)
  qed
  have "set (bool_index (map reg vep) (map (\<lambda>row. cort_flag row \<noteq> 0) vep)) \<subseteq> reg ` set vep"
    by (auto simp: bool_index_map)
  from parc_names[OF this] mrtrix_rows_colors parc_rows_colors c show ?thesis by blast
qed

theorem derived_colors_witness:
  "list_all (\<lambda>row. map_option color (find (\<lambda>e. name e = name row)
                (combined_lut fs_example vep_example)) = Some (color row))
     (tl (fst (create_vep_mrtrix_lut (map reg vep_example) (combined_lut fs_example vep_example))))
   \<and> length (tl (fst (create_vep_mrtrix_lut (map reg vep_example)
                (combined_lut fs_example vep_example)))) = 8
   \<and> list_all (\<lambda>row. map_option color (find (\<lambda>e. name e = ''Left-'' @ name row)
                (combined_lut fs_example vep_example)) = Some (color row))
     (tl (fst (create_parc_lut
         (bool_index (map reg vep_example) (map (\<lambda>row. cort_flag row \<noteq> 0) vep_example))
         (combined_lut fs_example vep_example))))
   \<and> map name (tl (fst (create_parc_lut
         (bool_index (map reg vep_example) (map (\<lambda>row. cort_flag row \<noteq> 0) vep_example))
         (combined_lut fs_example vep_example)))) = [''Insula'', ''Cuneus'']"
  using derived_colors[of "combined_lut fs_example vep_example" "map reg vep_example"
      "bool_index (map reg vep_example) (map (\<lambda>row. cort_flag row \<noteq> 0) vep_example)"
      vep_example fs_example]
    mrtrix_example parc_example
  by simp

lemma find_map_option_the:
  "y \<in> f ` set xs \<Longrightarrow> map_option g (find (\<lambda>e. f e = y) xs) = Some (g (the (find (\<lambda>e. f e = y) xs)))"
  by (induction xs) auto

lemma subcort_example:
  "create_subcort_list (bool_index (map reg vep_example) (map Not (map (\<lambda>row. cort_flag row \<noteq> 0) vep_example)))
      (combined_lut fs_example vep_example) = ([17, 71003, 53, 72003], None)"
  unfolding combined_example
  by (simp add: create_subcort_list_def bool_index_def Let_def fs_example_def vep_example_def)

subsection \<open>The subcortical index list\<close>

text \<open>
  C9.  For subcortical regions taken from the region table, \<^verbatim>\<open>create_subcort_list\<close>
  finds every name in the combined LUT and writes one integer for each region and hemisphere:
  the index of the first row of the combined LUT that has the region's prefixed name, for the
  whole Left block in the order of the regions and then for the whole Right block.  The
  indices are those of the combined LUT (a reference index or one from 71001 or 72001 on),
  not those of the renumbered LUT.
\<close>

theorem subcort_list:
  assumes "set subs \<subseteq> reg ` set vep"
  shows "snd (create_subcort_list subs (combined_lut fs_lut vep)) = None
   \<and> length (fst (create_subcort_list subs (combined_lut fs_lut vep))) = 2 * length subs
   \<and> map Some (fst (create_subcort_list subs (combined_lut fs_lut vep))) =
       map (\<lambda>r. map_option index (find (\<lambda>e. name e = ''Left-'' @ r) (combined_lut fs_lut vep))) subs
       @ map (\<lambda>r. map_option index (find (\<lambda>e. name e = ''Right-'' @ r) (combined_lut fs_lut vep))) subs"
proof -
  let ?lut = "combined_lut fs_lut vep"
  note closed = subcort_closed[OF assms, of fs_lut]
  have l: "\<And>r. r \<in> set subs \<Longrightarrow>
      map_option index (find (\<lambda>e. name e = ''Left-'' @ r) ?lut) =
        Some (index (the (find (\<lambda>e. name e = ''Left-'' @ r) ?lut)))"
    using assms combined_lut_covers(1)[of _ vep fs_lut]
    by (intro find_map_option_the) auto
  have r: "\<And>r. r \<in> set subs \<Longrightarrow>
      map_option index (find (\<lambda>e. name e = ''Right-'' @ r) ?lut) =
        Some (index (the (find (\<lambda>e. name e = ''Right-'' @ r) ?lut)))"
    using assms combined_lut_covers(2)[of _ vep fs_lut]
    by (intro find_map_option_the) auto
  have a: "snd (create_subcort_list subs ?lut) = None"
    by (simp only: closed snd_conv)
  have b: "length (fst (create_subcort_list subs ?lut)) = 2 * length subs"
    by (simp add: closed)
  have c: "map Some (fst (create_subcort_list subs ?lut)) =
       map (\<lambda>r. map_option index (find (\<lambda>e. name e = ''Left-'' @ r) ?lut)) subs
       @ map (\<lambda>r. map_option index (find (\<lambda>e. name e = ''Right-'' @ r) ?lut)) subs"
  proof -
    have L: "map (\<lambda>r. map_option index (find (\<lambda>e. name e = ''Left-'' @ r) ?lut)) subs =
        map (\<lambda>r. Some (index (the (find (\<lambda>e. name e = ''Left-'' @ r) ?lut)))) subs"
      by (rule map_cong[OF refl]) (rule l)
    have R: "map (\<lambda>r. map_option index (find (\<lambda>e. name e = ''Right-'' @ r) ?lut)) subs =
        map (\<lambda>r. Some (index (the (find (\<lambda>e. name e = ''Right-'' @ r) ?lut)))) subs"
      by (rule map_cong[OF refl]) (rule r)
    show ?thesis
      by (simp only: closed fst_conv map_append map_map comp_def L R)
  qed
  from a b c show ?thesis by blast
qed

text \<open>
  On the small run the hippocampus keeps its reference indices 17 and 53 and the thalamus has
  the new indices 71003 and 72003.
\<close>

theorem subcort_list_witness:
  "set (bool_index (map reg vep_example) (map Not (map (\<lambda>row. cort_flag row \<noteq> 0) vep_example)))
      \<subseteq> reg ` set vep_example
   \<and> fst (create_subcort_list
        (bool_index (map reg vep_example) (map Not (map (\<lambda>row. cort_flag row \<noteq> 0) vep_example)))
        (combined_lut fs_example vep_example)) = [17, 71003, 53, 72003]
   \<and> [Some 17, Some 71003, Some 53, Some 72003] =
       map (\<lambda>r. map_option index (find (\<lambda>e. name e = ''Left-'' @ r) (combined_lut fs_example vep_example)))
         [''Hippocampus'', ''Thalamus'']
       @ map (\<lambda>r. map_option index (find (\<lambda>e. name e = ''Right-'' @ r) (combined_lut fs_example vep_example)))
         [''Hippocampus'', ''Thalamus'']"
proof -
  have m: "bool_index (map reg vep_example) (map Not (map (\<lambda>row. cort_flag row \<noteq> 0) vep_example))
      = [''Hippocampus'', ''Thalamus'']"
    by (simp add: bool_index_def vep_example_def)
  have s: "set (bool_index (map reg vep_example) (map Not (map (\<lambda>row. cort_flag row \<noteq> 0) vep_example)))
      \<subseteq> reg ` set vep_example"
    by (simp add: bool_index_def vep_example_def)
  from subcort_list[OF s, of fs_example] s show ?thesis
    unfolding subcort_example unfolding m by simp
qed

subsection \<open>Regions that reuse a reference label\<close>

lemma mrtrix_names:
  "map name (tl (fst (create_vep_mrtrix_lut (map reg vep) (combined_lut fs_lut vep)))) =
     map (\<lambda>row. ''Left-'' @ reg row) vep @ map (\<lambda>row. ''Right-'' @ reg row) vep"
proof -
  let ?items = "List.product [''Left'', ''Right''] (map reg vep)"
  have sub: "set (map reg vep) \<subseteq> reg ` set vep" by simp
  have "map name (tl (fst (create_vep_mrtrix_lut (map reg vep) (combined_lut fs_lut vep)))) =
      map (\<lambda>(k, x). fst x @ ''-'' @ snd x) (enumerate 0 ?items)"
    by (simp add: mrtrix_closed[OF sub] case_prod_unfold comp_def)
  also have "\<dots> = map (\<lambda>x. fst x @ ''-'' @ snd x) ?items"
    by (rule map_enumerate_snd)
  finally show ?thesis by (simp add: comp_def)
qed

lemma mrtrix_hd:
  "fst (create_vep_mrtrix_lut rs lut) = unknown_row # tl (fst (create_vep_mrtrix_lut rs lut))"
  by (simp add: create_vep_mrtrix_lut_def Let_def case_prod_unfold)

lemma subcort_rows_indices:
  "map Some (fst (create_subcort_list rs lut)) =
     map (\<lambda>(h, r). map_option index (find (\<lambda>e. name e = h @ ''-'' @ r) lut))
       (take (length (fst (create_subcort_list rs lut))) (List.product [''Left'', ''Right''] rs))"
  unfolding create_subcort_list_def Let_def by (rule subcort_loop_indices)

lemma find_Some_in: "find P xs = Some e \<Longrightarrow> e \<in> set xs \<and> P e"
  by (induction xs) (auto split: if_splits)

lemma find_combined_reference:
  assumes "find (\<lambda>x. name x = nm) fs_lut = Some e"
  shows "find (\<lambda>x. name x = nm) (combined_lut fs_lut vep) = Some e"
proof -
  from find_Some_in[OF assms] have "e \<in> set fs_lut" and "name e = nm"
    by simp_all
  then have "nm \<in> name ` set fs_lut"
    by (metis imageI)
  then show ?thesis
    unfolding combined_lut_eq using assms by (simp add: find_append_in)
qed

lemma not_reemitted:
  assumes "nm \<in> set fs_regs"
  shows "list_all (\<lambda>x. name x \<noteq> nm) (new_entries hemi hnum vep_regs vep_colors fs_regs)"
proof -
  have "nm \<notin> set (map name (new_entries hemi hnum vep_regs vep_colors fs_regs))"
    unfolding new_entries_names using assms by simp
  then show ?thesis by (auto simp: list_all_iff)
qed

lemma subcort_reused:
  assumes "set ss \<subseteq> reg ` set vep"
    and "find (\<lambda>x. name x = h @ ''-'' @ r0) (combined_lut fs_lut vep) = Some e"
    and "h = ''Left'' \<or> h = ''Right''"
  shows "list_all2 (\<lambda>r i. r = r0 \<longrightarrow> i = index e) ss
        ((if h = ''Left'' then take else drop) (length ss)
           (fst (create_subcort_list ss (combined_lut fs_lut vep))))"
proof (cases "h = ''Left''")
  case True
  with assms(2) show ?thesis
    by (auto simp: subcort_closed[OF assms(1)] list_all2_map2 intro!: list_all2_refl)
next
  case False
  with assms(3) have "h = ''Right''" by simp
  with assms(2) show ?thesis
    by (auto simp: subcort_closed[OF assms(1)] list_all2_map2 intro!: list_all2_refl)
qed

lemma parc_hd:
  "fst (create_parc_lut rs lut) = unknown_row # tl (fst (create_parc_lut rs lut))"
  by (simp add: create_parc_lut_def Let_def case_prod_unfold)

lemma parc_reused:
  assumes "set cs \<subseteq> reg ` set vep"
    and "find (\<lambda>x. name x = ''Left-'' @ r0) (combined_lut fs_lut vep) = Some e"
  shows "list_all2 (\<lambda>r x. name x = r \<and> (r = r0 \<longrightarrow> color x = color e)) cs
        (tl (fst (create_parc_lut cs (combined_lut fs_lut vep))))"
  using assms(2)
  by (auto simp: parc_closed[OF assms(1)] list_all2_map2 enumerate_eq_zip list_all2_conv_all_nth)

lemma parc_all_colors:
  assumes "set cs \<subseteq> reg ` set vep"
  shows "map (\<lambda>x. Some (color x)) (tl (fst (create_parc_lut cs (combined_lut fs_lut vep)))) =
       map (\<lambda>r. map_option color (find (\<lambda>y. name y = ''Left-'' @ r) (combined_lut fs_lut vep))) cs"
proof -
  let ?lut = "combined_lut fs_lut vep"
  have l: "\<And>r. r \<in> set cs \<Longrightarrow>
      map_option color (find (\<lambda>e. name e = ''Left-'' @ r) ?lut) =
        Some (color (the (find (\<lambda>e. name e = ''Left-'' @ r) ?lut)))"
    using assms combined_lut_covers(1)[of _ vep fs_lut]
    by (intro find_map_option_the) auto
  have L: "map (\<lambda>r. map_option color (find (\<lambda>e. name e = ''Left-'' @ r) ?lut)) cs =
        map (\<lambda>r. Some (color (the (find (\<lambda>e. name e = ''Left-'' @ r) ?lut)))) cs"
    by (rule map_cong[OF refl]) (rule l)
  have "map (\<lambda>x. Some (color x)) (tl (fst (create_parc_lut cs ?lut))) =
      map (\<lambda>(k, r). Some (color (the (find (\<lambda>e. name e = ''Left-'' @ r) ?lut)))) (enumerate 0 cs)"
    by (simp add: parc_closed[OF assms] case_prod_unfold comp_def)
  also have "\<dots> = map (\<lambda>r. Some (color (the (find (\<lambda>e. name e = ''Left-'' @ r) ?lut)))) cs"
    by (rule map_enumerate_snd)
  finally show ?thesis unfolding L .
qed

lemma cort_example:
  "bool_index (map reg vep_example) (map (\<lambda>row. cort_flag row \<noteq> 0) vep_example) =
     [''Insula'', ''Cuneus'']"
  by (simp add: bool_index_def vep_example_def)

lemma combined_left_insula:
  "combined_lut fs_left_insula vep_example = fs_left_insula @
     [\<lparr>index = 71001, name = ''Left-Cuneus'', color = (40, 50, 60, 0)\<rparr>,
      \<lparr>index = 71002, name = ''Left-Thalamus'', color = (7, 8, 9, 0)\<rparr>,
      \<lparr>index = 72001, name = ''Right-Insula'', color = (10, 20, 30, 0)\<rparr>,
      \<lparr>index = 72002, name = ''Right-Cuneus'', color = (40, 50, 60, 0)\<rparr>,
      \<lparr>index = 72003, name = ''Right-Thalamus'', color = (7, 8, 9, 0)\<rparr>]"
  by (simp add: combined_lut_def create_vep_fs_lut_def new_entries_def vep_example_def
      fs_left_insula_def fs_example_def SHIFT_LH_def SHIFT_RH_def)

lemma parc_left_insula:
  "create_parc_lut (bool_index (map reg vep_example) (map (\<lambda>row. cort_flag row \<noteq> 0) vep_example))
      (combined_lut fs_left_insula vep_example) =
    ([\<lparr>index = 0, name = ''Unknown'', color = (0, 0, 0, 0)\<rparr>,
      \<lparr>index = 1, name = ''Insula'', color = (80, 196, 98, 0)\<rparr>,
      \<lparr>index = 2, name = ''Cuneus'', color = (40, 50, 60, 0)\<rparr>], None)"
  unfolding combined_left_insula cort_example
  by (simp add: create_parc_lut_def Let_def fs_left_insula_def fs_example_def unknown_row_def)

lemma combined_right_insula:
  "combined_lut fs_right_insula vep_example = fs_right_insula @
     [\<lparr>index = 71001, name = ''Left-Insula'', color = (10, 20, 30, 0)\<rparr>,
      \<lparr>index = 71002, name = ''Left-Cuneus'', color = (40, 50, 60, 0)\<rparr>,
      \<lparr>index = 71003, name = ''Left-Thalamus'', color = (7, 8, 9, 0)\<rparr>,
      \<lparr>index = 72001, name = ''Right-Cuneus'', color = (40, 50, 60, 0)\<rparr>,
      \<lparr>index = 72002, name = ''Right-Thalamus'', color = (7, 8, 9, 0)\<rparr>]"
  by (simp add: combined_lut_def create_vep_fs_lut_def new_entries_def vep_example_def
      fs_right_insula_def fs_example_def SHIFT_LH_def SHIFT_RH_def)

lemma parc_right_insula:
  "create_parc_lut (bool_index (map reg vep_example) (map (\<lambda>row. cort_flag row \<noteq> 0) vep_example))
      (combined_lut fs_right_insula vep_example) =
    ([\<lparr>index = 0, name = ''Unknown'', color = (0, 0, 0, 0)\<rparr>,
      \<lparr>index = 1, name = ''Insula'', color = (10, 20, 30, 0)\<rparr>,
      \<lparr>index = 2, name = ''Cuneus'', color = (40, 50, 60, 0)\<rparr>], None)"
  unfolding combined_right_insula cort_example
  by (simp add: create_parc_lut_def Let_def fs_right_insula_def fs_example_def unknown_row_def)

text \<open>
  C10, as the claim puts it: a region that reuses a reference label has the index and the
  colour of the reference row in all derived tables.  \<^verbatim>\<open>create_parc_lut\<close> looks up
  the Left name only (line 79).  When the reference table has the Right name of a cortical
  region and not the Left one, the cortical LUT has the colour of the new Left row, which is the
  colour of the region table, and not the colour of the reference row.
\<close>

theorem reference_label_reused_counterexample:
  "validate (map name fs_right_insula) rules_example vep_example = Inr ()
   \<and> vep_example ! 0 = \<lparr>cort_flag = 1, reg = ''Insula'', reg_color = (10, 20, 30, 0)\<rparr>
   \<and> find (\<lambda>x. name x = ''Right-Insula'') fs_right_insula =
       Some \<lparr>index = 2035, name = ''Right-Insula'', color = (1, 1, 1, 0)\<rparr>
   \<and> find (\<lambda>x. name x = ''Right-Insula'') (combined_lut fs_right_insula vep_example) =
       Some \<lparr>index = 2035, name = ''Right-Insula'', color = (1, 1, 1, 0)\<rparr>
   \<and> fst (create_parc_lut
        (bool_index (map reg vep_example) (map (\<lambda>row. cort_flag row \<noteq> 0) vep_example))
        (combined_lut fs_right_insula vep_example)) =
       [\<lparr>index = 0, name = ''Unknown'', color = (0, 0, 0, 0)\<rparr>,
        \<lparr>index = 1, name = ''Insula'', color = (10, 20, 30, 0)\<rparr>,
        \<lparr>index = 2, name = ''Cuneus'', color = (40, 50, 60, 0)\<rparr>]
   \<and> color (fst (create_parc_lut
        (bool_index (map reg vep_example) (map (\<lambda>row. cort_flag row \<noteq> 0) vep_example))
        (combined_lut fs_right_insula vep_example)) ! 1) \<noteq> (1, 1, 1, 0)"
proof -
  have v: "validate (map name fs_right_insula) rules_example vep_example = Inr ()"
    by (simp add: validate_def fs_right_insula_def fs_example_def rules_example_def
        vep_example_def newregs_def temp_regions_def duplicates_def bool_index_def
        subcort_covered_def cortical_first_def Let_def)
  have r: "vep_example ! 0 = \<lparr>cort_flag = 1, reg = ''Insula'', reg_color = (10, 20, 30, 0)\<rparr>"
    by (simp add: vep_example_def)
  have f: "find (\<lambda>x. name x = ''Right-Insula'') fs_right_insula =
       Some \<lparr>index = 2035, name = ''Right-Insula'', color = (1, 1, 1, 0)\<rparr>"
    by (simp add: fs_right_insula_def fs_example_def)
  have c: "find (\<lambda>x. name x = ''Right-Insula'') (combined_lut fs_right_insula vep_example) =
       Some \<lparr>index = 2035, name = ''Right-Insula'', color = (1, 1, 1, 0)\<rparr>"
    unfolding combined_right_insula by (simp add: fs_right_insula_def fs_example_def)
  from v r f c show ?thesis
    unfolding parc_right_insula by simp
qed

text \<open>
  C10, amended.  The three derived builders look a name up with \<^verbatim>\<open>names.index\<close>,
  so every row they write carries the colour, or the index, of the first row of that name in
  the combined LUT they read (whatever that LUT is).  \<^verbatim>\<open>create_vep_fs_lut\<close> writes
  no new row for a prefixed region name that the reference table already has.  So when the
  reference table has the name of a region of some hemisphere, and \<open>e\<close> is its first row of
  that name, \<open>e\<close> is also the first row of that name in the combined LUT.  On that LUT no
  builder raises.  The renumbered LUT has the row "Unknown" and one row for every region and
  hemisphere, and every row of the reused name has the colour of \<open>e\<close>.  The subcortical list
  has two entries for every subcortical region, and the index of \<open>e\<close> at the region's place
  in the block of the hemisphere of the reused name.  The cortical LUT has the row "Unknown"
  and one row for every cortical region, named after it, with the colour of the first row of
  the combined LUT that has the region's Left name; so the region's row has the colour of
  \<open>e\<close> when the reused name is the Left one, and a reused Right name plays no part in the
  cortical LUT.  The colour that the region table gives the region plays no part where the
  row of \<open>e\<close> is read.
\<close>

theorem reference_label_reused:
  assumes "row \<in> set vep" and "h = ''Left'' \<or> h = ''Right''"
    and "find (\<lambda>x. name x = h @ ''-'' @ reg row) fs_lut = Some e"
  shows
   "list_all (\<lambda>x. map_option color (find (\<lambda>y. name y = name x) lut) = Some (color x))
       (tl (fst (create_vep_mrtrix_lut rs lut)))
    \<and> map Some (fst (create_subcort_list rs lut)) =
        map (\<lambda>(h, r). map_option index (find (\<lambda>y. name y = h @ ''-'' @ r) lut))
          (take (length (fst (create_subcort_list rs lut))) (List.product [''Left'', ''Right''] rs))
    \<and> list_all (\<lambda>x. map_option color (find (\<lambda>y. name y = ''Left-'' @ name x) lut) = Some (color x))
       (tl (fst (create_parc_lut rs lut)))
    \<and> list_all (\<lambda>x. name x \<noteq> h @ ''-'' @ reg row)
        (new_entries h hnum (map reg vep) (map reg_color vep) (map name fs_lut))
    \<and> find (\<lambda>x. name x = h @ ''-'' @ reg row) (combined_lut fs_lut vep) = Some e
    \<and> snd (create_vep_mrtrix_lut (map reg vep) (combined_lut fs_lut vep)) = None
    \<and> map name (fst (create_vep_mrtrix_lut (map reg vep) (combined_lut fs_lut vep))) =
        ''Unknown'' # map (\<lambda>row. ''Left-'' @ reg row) vep
                    @ map (\<lambda>row. ''Right-'' @ reg row) vep
    \<and> h @ ''-'' @ reg row \<in>
        name ` set (fst (create_vep_mrtrix_lut (map reg vep) (combined_lut fs_lut vep)))
    \<and> list_all (\<lambda>x. name x = h @ ''-'' @ reg row \<longrightarrow> color x = color e)
        (fst (create_vep_mrtrix_lut (map reg vep) (combined_lut fs_lut vep)))
    \<and> snd (create_subcort_list
              (bool_index (map reg vep) (map Not (map (\<lambda>row. cort_flag row \<noteq> 0) vep)))
              (combined_lut fs_lut vep)) = None
    \<and> length (fst (create_subcort_list
              (bool_index (map reg vep) (map Not (map (\<lambda>row. cort_flag row \<noteq> 0) vep)))
              (combined_lut fs_lut vep))) =
        2 * length (bool_index (map reg vep) (map Not (map (\<lambda>row. cort_flag row \<noteq> 0) vep)))
    \<and> list_all2 (\<lambda>r i. r = reg row \<longrightarrow> i = index e)
        (bool_index (map reg vep) (map Not (map (\<lambda>row. cort_flag row \<noteq> 0) vep)))
        ((if h = ''Left'' then take else drop)
           (length (bool_index (map reg vep) (map Not (map (\<lambda>row. cort_flag row \<noteq> 0) vep))))
           (fst (create_subcort_list
              (bool_index (map reg vep) (map Not (map (\<lambda>row. cort_flag row \<noteq> 0) vep)))
              (combined_lut fs_lut vep))))
    \<and> snd (create_parc_lut (bool_index (map reg vep) (map (\<lambda>row. cort_flag row \<noteq> 0) vep))
              (combined_lut fs_lut vep)) = None
    \<and> map name (fst (create_parc_lut
              (bool_index (map reg vep) (map (\<lambda>row. cort_flag row \<noteq> 0) vep))
              (combined_lut fs_lut vep))) =
        ''Unknown'' # bool_index (map reg vep) (map (\<lambda>row. cort_flag row \<noteq> 0) vep)
    \<and> map (\<lambda>x. Some (color x)) (tl (fst (create_parc_lut
              (bool_index (map reg vep) (map (\<lambda>row. cort_flag row \<noteq> 0) vep))
              (combined_lut fs_lut vep)))) =
        map (\<lambda>r. map_option color (find (\<lambda>y. name y = ''Left-'' @ r) (combined_lut fs_lut vep)))
          (bool_index (map reg vep) (map (\<lambda>row. cort_flag row \<noteq> 0) vep))
    \<and> (h = ''Left'' \<longrightarrow>
        list_all2 (\<lambda>r x. name x = r \<and> (r = reg row \<longrightarrow> color x = color e))
          (bool_index (map reg vep) (map (\<lambda>row. cort_flag row \<noteq> 0) vep))
          (tl (fst (create_parc_lut (bool_index (map reg vep) (map (\<lambda>row. cort_flag row \<noteq> 0) vep))
                 (combined_lut fs_lut vep)))))
    \<and> (h = ''Left'' \<longrightarrow>
        list_all (\<lambda>x. name x = reg row \<longrightarrow> color x = color e)
          (tl (fst (create_parc_lut (bool_index (map reg vep) (map (\<lambda>row. cort_flag row \<noteq> 0) vep))
                 (combined_lut fs_lut vep)))))"
proof -
  let ?nm = "h @ ''-'' @ reg row"
  let ?lut = "combined_lut fs_lut vep"
  let ?subs = "bool_index (map reg vep) (map Not (map (\<lambda>row. cort_flag row \<noteq> 0) vep))"
  let ?cort = "bool_index (map reg vep) (map (\<lambda>row. cort_flag row \<noteq> 0) vep)"
  from find_Some_in[OF assms(3)] have "e \<in> set fs_lut" and "name e = ?nm"
    by simp_all
  then have in_ref: "?nm \<in> set (map name fs_lut)"
    unfolding set_map by (metis imageI)
  have first: "find (\<lambda>x. name x = ?nm) ?lut = Some e"
    using assms(3) by (rule find_combined_reference)
  have never: "list_all (\<lambda>x. name x \<noteq> ?nm)
      (new_entries h hnum (map reg vep) (map reg_color vep) (map name fs_lut))"
    using in_ref by (rule not_reemitted)
  have all: "set (map reg vep) \<subseteq> reg ` set vep" by simp
  have mr_ok: "snd (create_vep_mrtrix_lut (map reg vep) ?lut) = None"
    by (simp only: mrtrix_closed[OF all] snd_conv)
  have mr_names: "map name (fst (create_vep_mrtrix_lut (map reg vep) ?lut)) =
        ''Unknown'' # map (\<lambda>row. ''Left-'' @ reg row) vep
                    @ map (\<lambda>row. ''Right-'' @ reg row) vep"
    by (subst mrtrix_hd) (simp add: mrtrix_names unknown_row_def)
  have mr_in: "?nm \<in> name ` set (fst (create_vep_mrtrix_lut (map reg vep) ?lut))"
  proof -
    have "?nm \<in> set (map name (tl (fst (create_vep_mrtrix_lut (map reg vep) ?lut))))"
      unfolding mrtrix_names using assms(1,2) by auto
    then have "?nm \<in> name ` set (tl (fst (create_vep_mrtrix_lut (map reg vep) ?lut)))"
      by simp
    then show ?thesis
      by (subst mrtrix_hd) auto
  qed
  have mr_col: "list_all (\<lambda>x. name x = ?nm \<longrightarrow> color x = color e)
      (fst (create_vep_mrtrix_lut (map reg vep) ?lut))"
  proof -
    have "list_all (\<lambda>x. name x = ?nm \<longrightarrow> color x = color e)
        (tl (fst (create_vep_mrtrix_lut (map reg vep) ?lut)))"
      using mrtrix_rows_colors[of ?lut "map reg vep"] first
      by (auto simp: list_all_iff)
    moreover have "name unknown_row \<noteq> ?nm"
      using assms(2) by (auto simp: unknown_row_def)
    ultimately show ?thesis
      by (subst mrtrix_hd) simp
  qed
  have subs: "set ?subs \<subseteq> reg ` set vep"
    unfolding bool_index_not_map by auto
  have sc_ok: "snd (create_subcort_list ?subs ?lut) = None"
    by (simp only: subcort_closed[OF subs] snd_conv)
  have sc_len: "length (fst (create_subcort_list ?subs ?lut)) = 2 * length ?subs"
    by (simp only: subcort_closed[OF subs] fst_conv length_append length_map)
  have sc: "list_all2 (\<lambda>r i. r = reg row \<longrightarrow> i = index e) ?subs
        ((if h = ''Left'' then take else drop) (length ?subs)
           (fst (create_subcort_list ?subs ?lut)))"
    using subs first assms(2) by (rule subcort_reused)
  have cort: "set ?cort \<subseteq> reg ` set vep"
    unfolding bool_index_map by auto
  have pc_ok: "snd (create_parc_lut ?cort ?lut) = None"
    by (simp only: parc_closed[OF cort] snd_conv)
  have pc_names: "map name (fst (create_parc_lut ?cort ?lut)) = ''Unknown'' # ?cort"
    by (subst parc_hd) (simp add: parc_names[OF cort] unknown_row_def)
  have pc_all: "map (\<lambda>x. Some (color x)) (tl (fst (create_parc_lut ?cort ?lut))) =
        map (\<lambda>r. map_option color (find (\<lambda>y. name y = ''Left-'' @ r) ?lut)) ?cort"
    using cort by (rule parc_all_colors)
  have pc2: "h = ''Left'' \<longrightarrow>
        list_all2 (\<lambda>r x. name x = r \<and> (r = reg row \<longrightarrow> color x = color e)) ?cort
          (tl (fst (create_parc_lut ?cort ?lut)))"
  proof
    assume "h = ''Left''"
    with first have "find (\<lambda>x. name x = ''Left-'' @ reg row) ?lut = Some e" by simp
    with cort show "list_all2 (\<lambda>r x. name x = r \<and> (r = reg row \<longrightarrow> color x = color e)) ?cort
          (tl (fst (create_parc_lut ?cort ?lut)))"
      by (rule parc_reused)
  qed
  have pc: "h = ''Left'' \<longrightarrow> list_all (\<lambda>x. name x = reg row \<longrightarrow> color x = color e)
          (tl (fst (create_parc_lut ?cort ?lut)))"
    using parc_rows_colors[of ?lut ?cort] first
    by (auto simp: list_all_iff)
  note gen = mrtrix_rows_colors[of lut rs] subcort_rows_indices[of rs lut]
    parc_rows_colors[of lut rs]
  show ?thesis
    by (intro conjI gen never first mr_ok mr_names mr_in mr_col sc_ok sc_len sc pc_ok pc_names
        pc_all pc2 pc)
qed

text \<open>
  On the small run the region table gives the hippocampus the colour 1 2 3 0; the renumbered
  LUT has the reference colour 220 216 20 0 and the subcortical list the reference index 17.
  With a reference row for the Left insula the cortical LUT has the reference colour
  80 196 98 0 for the insula, and not the colour 10 20 30 0 of the region table.
\<close>

theorem reference_label_reused_witness:
  "\<lparr>cort_flag = 0, reg = ''Hippocampus'', reg_color = (1, 2, 3, 0)\<rparr> \<in> set vep_example
   \<and> find (\<lambda>x. name x = ''Left-Hippocampus'') fs_example =
       Some \<lparr>index = 17, name = ''Left-Hippocampus'', color = (220, 216, 20, 0)\<rparr>
   \<and> find (\<lambda>x. name x = ''Left-Hippocampus'') (combined_lut fs_example vep_example) =
       Some \<lparr>index = 17, name = ''Left-Hippocampus'', color = (220, 216, 20, 0)\<rparr>
   \<and> ''Left-Hippocampus'' \<in> name ` set (fst (create_vep_mrtrix_lut (map reg vep_example)
         (combined_lut fs_example vep_example)))
   \<and> list_all (\<lambda>x. name x = ''Left-Hippocampus'' \<longrightarrow> color x = (220, 216, 20, 0))
        (fst (create_vep_mrtrix_lut (map reg vep_example) (combined_lut fs_example vep_example)))
   \<and> list_all2 (\<lambda>r i. r = ''Hippocampus'' \<longrightarrow> i = 17) [''Hippocampus'', ''Thalamus'']
        (take (length [''Hippocampus'', ''Thalamus'']) (fst (create_subcort_list
           (bool_index (map reg vep_example) (map Not (map (\<lambda>row. cort_flag row \<noteq> 0) vep_example)))
           (combined_lut fs_example vep_example))))
   \<and> \<lparr>cort_flag = 1, reg = ''Insula'', reg_color = (10, 20, 30, 0)\<rparr> \<in> set vep_example
   \<and> find (\<lambda>x. name x = ''Left-Insula'') fs_left_insula =
       Some \<lparr>index = 1035, name = ''Left-Insula'', color = (80, 196, 98, 0)\<rparr>
   \<and> list_all2 (\<lambda>r x. name x = r \<and> (r = ''Insula'' \<longrightarrow> color x = (80, 196, 98, 0)))
        [''Insula'', ''Cuneus'']
        (tl (fst (create_parc_lut
           (bool_index (map reg vep_example) (map (\<lambda>row. cort_flag row \<noteq> 0) vep_example))
           (combined_lut fs_left_insula vep_example))))
   \<and> create_parc_lut
        (bool_index (map reg vep_example) (map (\<lambda>row. cort_flag row \<noteq> 0) vep_example))
        (combined_lut fs_left_insula vep_example) =
       ([\<lparr>index = 0, name = ''Unknown'', color = (0, 0, 0, 0)\<rparr>,
         \<lparr>index = 1, name = ''Insula'', color = (80, 196, 98, 0)\<rparr>,
         \<lparr>index = 2, name = ''Cuneus'', color = (40, 50, 60, 0)\<rparr>], None)"
proof -
  let ?row = "\<lparr>cort_flag = 0, reg = ''Hippocampus'', reg_color = (1, 2, 3, 0)\<rparr>"
  let ?e = "\<lparr>index = 17, name = ''Left-Hippocampus'', color = (220, 216, 20, 0)\<rparr>"
  let ?ins = "\<lparr>cort_flag = 1, reg = ''Insula'', reg_color = (10, 20, 30, 0)\<rparr>"
  let ?ei = "\<lparr>index = 1035, name = ''Left-Insula'', color = (80, 196, 98, 0)\<rparr>"
  have p1: "?row \<in> set vep_example"
    by (simp add: vep_example_def)
  have p2: "''Left'' = ''Left'' \<or> ''Left'' = ''Right''"
    by simp
  have p3: "find (\<lambda>x. name x = ''Left'' @ ''-'' @ reg ?row) fs_example = Some ?e"
    by (simp add: fs_example_def)
  have q1: "?ins \<in> set vep_example"
    by (simp add: vep_example_def)
  have q3: "find (\<lambda>x. name x = ''Left'' @ ''-'' @ reg ?ins) fs_left_insula = Some ?ei"
    by (simp add: fs_left_insula_def fs_example_def)
  have m: "bool_index (map reg vep_example) (map Not (map (\<lambda>row. cort_flag row \<noteq> 0) vep_example))
      = [''Hippocampus'', ''Thalamus'']"
    by (simp add: bool_index_def vep_example_def)
  have a: "find (\<lambda>x. name x = ''Left-Hippocampus'') (combined_lut fs_example vep_example) = Some ?e
   \<and> ''Left-Hippocampus'' \<in> name ` set (fst (create_vep_mrtrix_lut (map reg vep_example)
         (combined_lut fs_example vep_example)))
   \<and> list_all (\<lambda>x. name x = ''Left-Hippocampus'' \<longrightarrow> color x = (220, 216, 20, 0))
        (fst (create_vep_mrtrix_lut (map reg vep_example) (combined_lut fs_example vep_example)))
   \<and> list_all2 (\<lambda>r i. r = ''Hippocampus'' \<longrightarrow> i = 17) [''Hippocampus'', ''Thalamus'']
        (take (length [''Hippocampus'', ''Thalamus'']) (fst (create_subcort_list
           (bool_index (map reg vep_example) (map Not (map (\<lambda>row. cort_flag row \<noteq> 0) vep_example)))
           (combined_lut fs_example vep_example))))"
    using reference_label_reused[OF p1 p2 p3, where lut = fs_example and rs = "[]"
        and hnum = SHIFT_LH]
    unfolding subcort_example m by simp
  have b: "list_all2 (\<lambda>r x. name x = r \<and> (r = ''Insula'' \<longrightarrow> color x = (80, 196, 98, 0)))
        [''Insula'', ''Cuneus'']
        (tl (fst (create_parc_lut
           (bool_index (map reg vep_example) (map (\<lambda>row. cort_flag row \<noteq> 0) vep_example))
           (combined_lut fs_left_insula vep_example))))"
    using reference_label_reused[OF q1 p2 q3, where lut = fs_example and rs = "[]"
        and hnum = SHIFT_LH]
    unfolding parc_left_insula cort_example by simp
  from p1 p3 a q1 q3 b parc_left_insula show ?thesis by simp
qed

subsection \<open>Disjoint index ranges\<close>

lemma new_entries_index:
  "map index (new_entries hemi hnum vep_regs vep_colors fs_regs) =
     map (\<lambda>k. hnum + 1 + int k) [0..<length (new_entries hemi hnum vep_regs vep_colors fs_regs)]"
  unfolding new_entries_def by (rule hemi_loop_index)

lemma new_entries_index_set:
  "set (map index (new_entries hemi hnum vep_regs vep_colors fs_regs)) =
     {hnum + 1 + int k |k. k < length (new_entries hemi hnum vep_regs vep_colors fs_regs)}"
  by (subst new_entries_index) auto

lemma validate_example:
  "validate (map name fs_example) rules_example vep_example = Inr ()"
  by (simp add: validate_def fs_example_def rules_example_def vep_example_def newregs_def
      temp_regions_def duplicates_def bool_index_def subcort_covered_def cortical_first_def Let_def)

text \<open>
  C1, as the claim puts it: on every input that passes the checks, the new Left indices, the
  new Right indices and the reference indices are pairwise disjoint.  No check looks at the
  indices of the reference table: a reference table with a row at index 71002 passes, and the
  second new Left row gets the same index.
\<close>

theorem new_indices_disjoint_counterexample:
  "validate (map name fs_high) rules_example vep_example = Inr ()
   \<and> 71002 \<in> set (map index (new_entries ''Left'' SHIFT_LH (map reg vep_example)
                (map reg_color vep_example) (map name fs_high)))
   \<and> 71002 \<in> set (map index fs_high)
   \<and> \<not> (set (map index (new_entries ''Left'' SHIFT_LH (map reg vep_example)
                (map reg_color vep_example) (map name fs_high)))
          \<inter> set (map index fs_high) = {})"
proof -
  have v: "validate (map name fs_high) rules_example vep_example = Inr ()"
    by (simp add: validate_def fs_high_def fs_example_def rules_example_def vep_example_def
        newregs_def temp_regions_def duplicates_def bool_index_def subcort_covered_def
        cortical_first_def Let_def)
  have l: "71002 \<in> set (map index (new_entries ''Left'' SHIFT_LH (map reg vep_example)
                (map reg_color vep_example) (map name fs_high)))"
    by (simp add: new_entries_def vep_example_def fs_high_def fs_example_def SHIFT_LH_def)
  have f: "71002 \<in> set (map index fs_high)"
    by (simp add: fs_high_def fs_example_def)
  from v l f show ?thesis by blast
qed

text \<open>
  The two new blocks meet as well when one hemisphere has more than 1000 new rows: the
  offsets are 1000 apart.
\<close>

lemma left_right_overlap:
  assumes "length vep_regs = 1001" and "length vep_colors = 1001"
  shows "72001 \<in> set (map index (new_entries ''Left'' SHIFT_LH vep_regs vep_colors []))
       \<inter> set (map index (new_entries ''Right'' SHIFT_RH vep_regs vep_colors []))"
proof -
  have len: "\<And>hemi hnum. length (new_entries hemi hnum vep_regs vep_colors []) = 1001"
    using assms by (simp add: new_entries_def hemi_loop_closed)
  have "\<exists>k<1001. (72001::int) = SHIFT_LH + 1 + int k"
    by (rule exI[of _ 1000]) (simp add: SHIFT_LH_def)
  then have l: "72001 \<in> set (map index (new_entries ''Left'' SHIFT_LH vep_regs vep_colors []))"
    unfolding new_entries_index_set len by blast
  have "\<exists>k<1001. (72001::int) = SHIFT_RH + 1 + int k"
    by (rule exI[of _ 0]) (simp add: SHIFT_RH_def)
  then have r: "72001 \<in> set (map index (new_entries ''Right'' SHIFT_RH vep_regs vep_colors []))"
    unfolding new_entries_index_set len by blast
  from l r show ?thesis by simp
qed

text \<open>
  C1, amended.  When \<^verbatim>\<open>create_vep_fs_lut\<close> writes at most 1000 new Left rows and no
  reference index is above 71000, the new Left indices, the new Right indices and the
  reference indices are pairwise disjoint, on every input, whether it passes the checks or not.
\<close>

theorem new_indices_disjoint:
  assumes "length (new_entries ''Left'' SHIFT_LH vep_regs vep_colors fs_regs) \<le> 1000"
    and "list_all (\<lambda>e. index e \<le> SHIFT_LH) fs_lut"
  shows "set (map index (new_entries ''Left'' SHIFT_LH vep_regs vep_colors fs_regs))
           \<inter> set (map index (new_entries ''Right'' SHIFT_RH vep_regs vep_colors fs_regs)) = {}
       \<and> set (map index (new_entries ''Left'' SHIFT_LH vep_regs vep_colors fs_regs))
           \<inter> set (map index fs_lut) = {}
       \<and> set (map index (new_entries ''Right'' SHIFT_RH vep_regs vep_colors fs_regs))
           \<inter> set (map index fs_lut) = {}"
proof -
  let ?L = "new_entries ''Left'' SHIFT_LH vep_regs vep_colors fs_regs"
  let ?R = "new_entries ''Right'' SHIFT_RH vep_regs vep_colors fs_regs"
  have L: "\<And>i. i \<in> set (map index ?L) \<Longrightarrow> 71000 < i \<and> i \<le> 72000"
    using assms(1) unfolding new_entries_index_set by (auto simp: SHIFT_LH_def)
  have R: "\<And>i. i \<in> set (map index ?R) \<Longrightarrow> 72000 < i"
    unfolding new_entries_index_set by (auto simp: SHIFT_RH_def)
  have F: "\<And>i. i \<in> set (map index fs_lut) \<Longrightarrow> i \<le> 71000"
    using assms(2) by (auto simp: list_all_iff SHIFT_LH_def)
  have a: "set (map index ?L) \<inter> set (map index ?R) = {}"
    using L R by fastforce
  have b: "set (map index ?L) \<inter> set (map index fs_lut) = {}"
    using L F by fastforce
  have c: "set (map index ?R) \<inter> set (map index fs_lut) = {}"
    using R F by fastforce
  from a b c show ?thesis by blast
qed

theorem new_indices_disjoint_witness:
  "length (new_entries ''Left'' SHIFT_LH (map reg vep_example) (map reg_color vep_example)
             (map name fs_example)) \<le> 1000
   \<and> list_all (\<lambda>e. index e \<le> SHIFT_LH) fs_example
   \<and> map index (new_entries ''Left'' SHIFT_LH (map reg vep_example) (map reg_color vep_example)
             (map name fs_example)) = [71001, 71002, 71003]
   \<and> set (map index (new_entries ''Left'' SHIFT_LH (map reg vep_example) (map reg_color vep_example)
             (map name fs_example)))
       \<inter> set (map index (new_entries ''Right'' SHIFT_RH (map reg vep_example)
             (map reg_color vep_example) (map name fs_example))) = {}
   \<and> set (map index (new_entries ''Left'' SHIFT_LH (map reg vep_example) (map reg_color vep_example)
             (map name fs_example))) \<inter> set (map index fs_example) = {}
   \<and> set (map index (new_entries ''Right'' SHIFT_RH (map reg vep_example)
             (map reg_color vep_example) (map name fs_example))) \<inter> set (map index fs_example) = {}"
proof -
  have l: "new_entries ''Left'' SHIFT_LH (map reg vep_example) (map reg_color vep_example)
             (map name fs_example) =
     [\<lparr>index = 71001, name = ''Left-Insula'', color = (10, 20, 30, 0)\<rparr>,
      \<lparr>index = 71002, name = ''Left-Cuneus'', color = (40, 50, 60, 0)\<rparr>,
      \<lparr>index = 71003, name = ''Left-Thalamus'', color = (7, 8, 9, 0)\<rparr>]"
    by (simp add: new_entries_def vep_example_def fs_example_def SHIFT_LH_def)
  have p1: "length (new_entries ''Left'' SHIFT_LH (map reg vep_example) (map reg_color vep_example)
             (map name fs_example)) \<le> 1000"
    unfolding l by simp
  have p2: "list_all (\<lambda>e. index e \<le> SHIFT_LH) fs_example"
    by (simp add: fs_example_def SHIFT_LH_def)
  from new_indices_disjoint[OF p1 p2] p1 p2 l show ?thesis by simp
qed

section \<open>The checks\<close>

subsection \<open>The loop of duplicates and the checks in closed form\<close>

lemma map_of_snoc:
  "map_of (pre @ [(k, v)]) =
     (case map_of pre k of Some v0 \<Rightarrow> map_of pre | None \<Rightarrow> (map_of pre)(k \<mapsto> v))"
  by (rule ext) (auto simp: map_add_def split: option.splits)

lemma duplicates_loop_collisions:
  "duplicates_loop (map_of pre) dups rest =
     dups @ concat (map (\<lambda>j. case map_of (take j (pre @ rest)) (fst ((pre @ rest) ! j)) of
                         None \<Rightarrow> []
                       | Some v0 \<Rightarrow> [(fst ((pre @ rest) ! j), v0, snd ((pre @ rest) ! j))])
               [length pre..<length pre + length rest])"
proof (induction rest arbitrary: pre dups)
  case Nil
  show ?case by simp
next
  case (Cons x rest)
  obtain k v where x: "x = (k, v)" by (cases x)
  have app: "pre @ (k, v) # rest = (pre @ [(k, v)]) @ rest" by simp
  have upt: "[length pre..<length pre + length ((k, v) # rest)] =
      length pre # [length (pre @ [(k, v)])..<length (pre @ [(k, v)]) + length rest]"
    using upt_conv_Cons[of "length pre" "length pre + Suc (length rest)"]
    by (simp del: upt_Suc)
  show ?case
  proof (cases "map_of pre k")
    case None
    then have m: "(map_of pre)(k \<mapsto> v) = map_of (pre @ [(k, v)])"
      by (simp add: map_of_snoc del: map_of_append)
    have "duplicates_loop (map_of pre) dups (x # rest) =
        duplicates_loop (map_of (pre @ [(k, v)])) dups rest"
      using None by (simp add: x m del: map_of_append)
    also note Cons.IH[of "pre @ [(k, v)]" dups]
    finally show ?thesis
      unfolding x upt app[symmetric] using None by simp
  next
    case (Some v0)
    then have m: "map_of pre = map_of (pre @ [(k, v)])"
      by (simp add: map_of_snoc del: map_of_append)
    have "duplicates_loop (map_of pre) dups (x # rest) =
        duplicates_loop (map_of (pre @ [(k, v)])) (dups @ [(k, v0, v)]) rest"
      using Some m by (simp add: x del: map_of_append)
    also note Cons.IH[of "pre @ [(k, v)]" "dups @ [(k, v0, v)]"]
    finally show ?thesis
      unfolding x upt app[symmetric] using Some by simp
  qed
qed

lemma duplicates_collisions: "duplicates keys vals = collisions (zip keys vals)"
  using duplicates_loop_collisions[of "[]" "[]" "zip keys vals"]
  by (simp add: duplicates_def collisions_def cong: option.case_cong)

lemma duplicates_loop_Nil:
  "duplicates_loop dct dups kvs = [] \<longleftrightarrow>
     dups = [] \<and> distinct (map fst kvs) \<and> dom dct \<inter> fst ` set kvs = {}"
proof (induction kvs arbitrary: dct dups)
  case Nil
  show ?case by simp
next
  case (Cons x kvs)
  obtain k v where x: "x = (k, v)" by (cases x)
  show ?case
  proof (cases "dct k")
    case None
    have step: "duplicates_loop dct dups (x # kvs) = duplicates_loop (dct(k \<mapsto> v)) dups kvs"
      using None by (simp add: x)
    have d: "dom (dct(k \<mapsto> v)) = insert k (dom dct)" by simp
    have k: "k \<notin> dom dct" using None by (simp add: domIff)
    show ?thesis
      unfolding step Cons.IH d using k by (simp add: x) blast
  next
    case (Some v0)
    then show ?thesis by (auto simp: x Cons.IH)
  qed
qed

lemma duplicates_Nil:
  "length keys = length vals \<Longrightarrow> duplicates keys vals = [] \<longleftrightarrow> distinct keys"
  by (simp add: duplicates_def duplicates_loop_Nil)

lemma check_cortical_find:
  "check_cortical nr rs =
     (case find (\<lambda>r. ''%H-'' @ r \<notin> set nr) rs of
        None \<Rightarrow> Inr () | Some r \<Rightarrow> Inl (MissingRuleError r))"
  by (induction rs) simp_all

lemma check_subcortical_all:
  "check_subcortical nr fs_regs rs =
     (if list_all (subcort_covered nr fs_regs) rs then Inr () else Inl SubcortCoverageError)"
  by (induction rs) simp_all

lemma validate_cases:
  "validate fs_regs rules vep =
    (if \<not> list_all (str_in ''%H'') (newregs rules) then Inl MalformedRuleError
     else if \<not> distinct (map reg_color vep)
       then Inl (DuplicateColorError (collisions (zip (map reg_color vep) (map reg vep))))
     else case find (\<lambda>r. ''%H-'' @ r \<notin> set (newregs rules))
                 (bool_index (map reg vep) (map (\<lambda>row. cort_flag row \<noteq> 0) vep)) of
         Some r \<Rightarrow> Inl (MissingRuleError r)
       | None \<Rightarrow>
           if \<not> list_all (subcort_covered (newregs rules) fs_regs)
                  (bool_index (map reg vep) (map Not (map (\<lambda>row. cort_flag row \<noteq> 0) vep)))
           then Inl SubcortCoverageError
           else if cortical_first (map (\<lambda>row. cort_flag row \<noteq> 0) vep) then Inr ()
           else Inl OrderingError)"
proof -
  have d: "duplicates (map reg_color vep) (map reg vep) = [] \<longleftrightarrow> distinct (map reg_color vep)"
    by (rule duplicates_Nil) simp
  show ?thesis
    unfolding validate_def Let_def check_cortical_find check_subcortical_all length_greater_0_conv d
    by (simp add: duplicates_collisions split: option.splits)
qed

lemma collisions_Nil: "collisions (zip (map f xs) (map g xs)) = [] \<longleftrightarrow> distinct (map f xs)"
  using duplicates_Nil[of "map f xs" "map g xs"] by (simp add: duplicates_collisions)

lemma validate_error_kind:
  "validate fs_regs rules vep = Inl e \<Longrightarrow> \<forall>n. e \<noteq> LookupError n"
  by (auto simp: validate_cases split: if_splits option.splits)

lemma create_luts_valid:
  assumes "validate (map name fs_lut) rules vep = Inr ()"
  shows "create_luts fs_lut rules vep fl =
     (None, fl\<lparr>vep_fs_lut_file := Some (combined_lut fs_lut vep),
               vep_mrtrix_lut_file :=
                 Some (fst (create_vep_mrtrix_lut (map reg vep) (combined_lut fs_lut vep))),
               vep_subcort_file :=
                 Some (fst (create_subcort_list
                   (bool_index (map reg vep) (map Not (map (\<lambda>row. cort_flag row \<noteq> 0) vep)))
                   (combined_lut fs_lut vep))),
               vep_aparc_lut_file :=
                 Some (fst (create_parc_lut
                   (bool_index (map reg vep) (map (\<lambda>row. cort_flag row \<noteq> 0) vep))
                   (combined_lut fs_lut vep)))\<rparr>)"
proof -
  let ?lut = "combined_lut fs_lut vep"
  let ?subs = "bool_index (map reg vep) (map Not (map (\<lambda>row. cort_flag row \<noteq> 0) vep))"
  let ?cort = "bool_index (map reg vep) (map (\<lambda>row. cort_flag row \<noteq> 0) vep)"
  have s1: "set (map reg vep) \<subseteq> reg ` set vep" by simp
  have s2: "set ?subs \<subseteq> reg ` set vep" unfolding bool_index_not_map by auto
  have s3: "set ?cort \<subseteq> reg ` set vep" unfolding bool_index_map by auto
  have mr: "snd (create_vep_mrtrix_lut (map reg vep) ?lut) = None"
    by (simp only: mrtrix_closed[OF s1] snd_conv)
  have sc: "snd (create_subcort_list ?subs ?lut) = None"
    by (simp only: subcort_closed[OF s2] snd_conv)
  have pc: "snd (create_parc_lut ?cort ?lut) = None"
    by (simp only: parc_closed[OF s3] snd_conv)
  show ?thesis
    unfolding create_luts_def Let_def combined_lut_def[symmetric] assms
    using mr sc pc by (simp add: case_prod_unfold)
qed

lemma validate_thalamus:
  "validate (map name fs_example) rules_thalamus vep_example = Inl (MissingRuleError ''Insula'')"
  by (simp add: vep_example_def validate_def rules_thalamus_def newregs_def temp_regions_def
      duplicates_def bool_index_def Let_def)

subsection \<open>Duplicate colours\<close>

text \<open>
  C4, as the claim puts it: the run raises the error of the colour check if and only if two
  rows of the region table have the same colour.  The rule names are checked first (line 42):
  with an output name without the placeholder the run raises that error, whatever the colours
  are.
\<close>

theorem duplicate_color_error_counterexample:
  "\<not> distinct (map reg_color vep_dup)
   \<and> validate (map name fs_example) rules_bad vep_dup = Inl MalformedRuleError
   \<and> validate (map name fs_example) rules_bad vep_dup \<noteq>
       Inl (DuplicateColorError (duplicates (map reg_color vep_dup) (map reg vep_dup)))"
  by (simp add: vep_dup_def validate_def rules_bad_def newregs_def temp_regions_def Let_def)

text \<open>
  C4, amended.  When every rule output name has the placeholder, the run raises the error of
  the colour check if and only if two rows of the region table have the same colour, and the
  error carries all collisions of the table and not only the first: for every row whose
  colour an earlier row has, in file order, the colour, the region of the first row with that
  colour, and the region of the row.
\<close>

theorem duplicate_color_error:
  assumes "list_all (str_in ''%H'') (newregs rules)"
  shows "(\<not> distinct (map reg_color vep) \<longrightarrow>
            validate fs_regs rules vep =
              Inl (DuplicateColorError (collisions (zip (map reg_color vep) (map reg vep))))
            \<and> collisions (zip (map reg_color vep) (map reg vep)) \<noteq> [])
       \<and> (distinct (map reg_color vep) \<longrightarrow>
            (\<forall>d. validate fs_regs rules vep \<noteq> Inl (DuplicateColorError d)))"
  using assms
  by (simp add: validate_cases collisions_Nil split: option.splits)

theorem duplicate_color_error_witness:
  "list_all (str_in ''%H'') (newregs rules_example)
   \<and> \<not> distinct (map reg_color vep_dup)
   \<and> validate (map name fs_example) rules_example vep_dup =
       Inl (DuplicateColorError
             [((10, 20, 30, 0), ''Insula'', ''Hippocampus''),
              ((40, 50, 60, 0), ''Cuneus'', ''Thalamus''),
              ((10, 20, 30, 0), ''Insula'', ''Amygdala'')])"
proof -
  have p: "list_all (str_in ''%H'') (newregs rules_example)"
    by (simp add: rules_example_def newregs_def temp_regions_def)
  have d: "\<not> distinct (map reg_color vep_dup)"
    by (simp add: vep_dup_def)
  have c: "collisions (zip (map reg_color vep_dup) (map reg vep_dup)) =
      [((10, 20, 30, 0), ''Insula'', ''Hippocampus''),
       ((40, 50, 60, 0), ''Cuneus'', ''Thalamus''),
       ((10, 20, 30, 0), ''Insula'', ''Amygdala'')]"
    by (simp add: collisions_def vep_dup_def upt_conv_Cons del: upt_Suc)
  from duplicate_color_error[OF p, of vep_dup "map name fs_example"] p d c
  show ?thesis by simp
qed

subsection \<open>Cortical regions without a rule\<close>

text \<open>
  C7, as the claim puts it: for every cortical region without a rule the run fails with the
  error that names this region.  The loop of lines 54 to 56 raises at the first such region:
  with rules for the thalamus only, the error names the insula and not the cuneus.
\<close>

theorem missing_rule_error_counterexample:
  "cort_flag \<lparr>cort_flag = 1, reg = ''Cuneus'', reg_color = (40, 50, 60, 0)\<rparr> \<noteq> 0
   \<and> vep_example ! 1 = \<lparr>cort_flag = 1, reg = ''Cuneus'', reg_color = (40, 50, 60, 0)\<rparr>
   \<and> ''%H-Cuneus'' \<notin> set (newregs rules_thalamus)
   \<and> validate (map name fs_example) rules_thalamus vep_example = Inl (MissingRuleError ''Insula'')
   \<and> validate (map name fs_example) rules_thalamus vep_example \<noteq> Inl (MissingRuleError ''Cuneus'')"
  by (simp add: vep_example_def validate_def rules_thalamus_def newregs_def temp_regions_def
      duplicates_def bool_index_def Let_def)

text \<open>
  C7, amended.  When the rule names and the colours pass their checks, the run fails with the
  error for a missing rule exactly when some cortical region has no name "%H-" plus region
  among the rule output names, and the error names the first such region in the order of the
  region table.  When every cortical region has its name there, this error is not raised.
\<close>

theorem missing_rule_error:
  assumes "list_all (str_in ''%H'') (newregs rules)" and "distinct (map reg_color vep)"
  shows "(validate fs_regs rules vep = Inl (MissingRuleError r) \<longleftrightarrow>
           find (\<lambda>r. ''%H-'' @ r \<notin> set (newregs rules))
             (bool_index (map reg vep) (map (\<lambda>row. cort_flag row \<noteq> 0) vep)) = Some r)
       \<and> (list_all (\<lambda>r. ''%H-'' @ r \<in> set (newregs rules))
             (bool_index (map reg vep) (map (\<lambda>row. cort_flag row \<noteq> 0) vep)) \<longrightarrow>
           (\<forall>r. validate fs_regs rules vep \<noteq> Inl (MissingRuleError r)))"
proof -
  let ?cort = "bool_index (map reg vep) (map (\<lambda>row. cort_flag row \<noteq> 0) vep)"
  have a: "validate fs_regs rules vep = Inl (MissingRuleError r) \<longleftrightarrow>
           find (\<lambda>r. ''%H-'' @ r \<notin> set (newregs rules)) ?cort = Some r"
    using assms by (simp add: validate_cases split: option.splits)
  have "list_all (\<lambda>r. ''%H-'' @ r \<in> set (newregs rules)) ?cort \<Longrightarrow>
      find (\<lambda>r. ''%H-'' @ r \<notin> set (newregs rules)) ?cort = None"
    by (simp add: find_None_iff list_all_iff)
  then have b: "list_all (\<lambda>r. ''%H-'' @ r \<in> set (newregs rules)) ?cort \<longrightarrow>
           (\<forall>r. validate fs_regs rules vep \<noteq> Inl (MissingRuleError r))"
    by (simp add: validate_cases split: option.splits)
  from a b show ?thesis by blast
qed

theorem missing_rule_error_witness:
  "list_all (str_in ''%H'') (newregs rules_thalamus)
   \<and> distinct (map reg_color vep_example)
   \<and> find (\<lambda>r. ''%H-'' @ r \<notin> set (newregs rules_thalamus))
        (bool_index (map reg vep_example) (map (\<lambda>row. cort_flag row \<noteq> 0) vep_example))
       = Some ''Insula''
   \<and> validate (map name fs_example) rules_thalamus vep_example = Inl (MissingRuleError ''Insula'')"
proof -
  have p: "list_all (str_in ''%H'') (newregs rules_thalamus)"
    by (simp add: rules_thalamus_def newregs_def temp_regions_def)
  have d: "distinct (map reg_color vep_example)"
    by (simp add: vep_example_def)
  have f: "find (\<lambda>r. ''%H-'' @ r \<notin> set (newregs rules_thalamus))
        (bool_index (map reg vep_example) (map (\<lambda>row. cort_flag row \<noteq> 0) vep_example))
       = Some ''Insula''"
    by (simp add: rules_thalamus_def newregs_def temp_regions_def bool_index_def vep_example_def)
  from missing_rule_error[OF p d, of "map name fs_example" "''Insula''"] p d f
  show ?thesis by simp
qed

subsection \<open>Subcortical regions\<close>

text \<open>
  C8.  The loop of lines 59 to 60 passes exactly when every subcortical region has its name
  "%H-" plus region among the rule output names or both its Left and its Right name among the
  reference names.  A subcortical row of the region table that has neither makes the run fail.
  When the checks before this one pass, the run fails with the error of this check exactly
  when there is such a row.
\<close>

theorem subcortical_coverage:
  "(check_subcortical nr fs_regs rs = Inr () \<longleftrightarrow>
      list_all (\<lambda>r. ''%H-'' @ r \<in> set nr \<or>
                     (''Left-'' @ r \<in> set fs_regs \<and> ''Right-'' @ r \<in> set fs_regs)) rs)
   \<and> (row \<in> set vep \<and> cort_flag row = 0 \<and> ''%H-'' @ reg row \<notin> set (newregs rules)
        \<and> \<not> (''Left-'' @ reg row \<in> set fs_regs \<and> ''Right-'' @ reg row \<in> set fs_regs) \<longrightarrow>
      (\<exists>e. validate fs_regs rules vep = Inl e))
   \<and> (list_all (str_in ''%H'') (newregs rules) \<and> distinct (map reg_color vep)
        \<and> list_all (\<lambda>r. ''%H-'' @ r \<in> set (newregs rules))
             (bool_index (map reg vep) (map (\<lambda>row. cort_flag row \<noteq> 0) vep)) \<longrightarrow>
      (validate fs_regs rules vep = Inl SubcortCoverageError \<longleftrightarrow>
       \<not> list_all (\<lambda>r. ''%H-'' @ r \<in> set (newregs rules) \<or>
                     (''Left-'' @ r \<in> set fs_regs \<and> ''Right-'' @ r \<in> set fs_regs))
           (bool_index (map reg vep) (map Not (map (\<lambda>row. cort_flag row \<noteq> 0) vep)))))"
proof -
  let ?cond = "\<lambda>nr r. ''%H-'' @ r \<in> set nr \<or>
                     (''Left-'' @ r \<in> set fs_regs \<and> ''Right-'' @ r \<in> set fs_regs)"
  let ?subs = "bool_index (map reg vep) (map Not (map (\<lambda>row. cort_flag row \<noteq> 0) vep))"
  let ?cort = "bool_index (map reg vep) (map (\<lambda>row. cort_flag row \<noteq> 0) vep)"
  have cov: "\<And>nr. subcort_covered nr fs_regs = ?cond nr"
    by (rule ext) (simp add: subcort_covered_def)
  have a: "check_subcortical nr fs_regs rs = Inr () \<longleftrightarrow> list_all (?cond nr) rs"
    by (simp add: check_subcortical_all cov)
  have b: "row \<in> set vep \<and> cort_flag row = 0 \<and> ''%H-'' @ reg row \<notin> set (newregs rules)
        \<and> \<not> (''Left-'' @ reg row \<in> set fs_regs \<and> ''Right-'' @ reg row \<in> set fs_regs) \<longrightarrow>
      (\<exists>e. validate fs_regs rules vep = Inl e)"
  proof
    assume h: "row \<in> set vep \<and> cort_flag row = 0 \<and> ''%H-'' @ reg row \<notin> set (newregs rules)
        \<and> \<not> (''Left-'' @ reg row \<in> set fs_regs \<and> ''Right-'' @ reg row \<in> set fs_regs)"
    then have "reg row \<in> set ?subs"
      unfolding bool_index_not_map by auto
    with h have "\<not> list_all (subcort_covered (newregs rules) fs_regs) ?subs"
      unfolding cov list_all_iff by blast
    then show "\<exists>e. validate fs_regs rules vep = Inl e"
      by (simp add: validate_cases split: option.splits)
  qed
  have c: "list_all (str_in ''%H'') (newregs rules) \<and> distinct (map reg_color vep)
        \<and> list_all (\<lambda>r. ''%H-'' @ r \<in> set (newregs rules)) ?cort \<longrightarrow>
      (validate fs_regs rules vep = Inl SubcortCoverageError \<longleftrightarrow>
       \<not> list_all (?cond (newregs rules)) ?subs)"
  proof
    assume h: "list_all (str_in ''%H'') (newregs rules) \<and> distinct (map reg_color vep)
        \<and> list_all (\<lambda>r. ''%H-'' @ r \<in> set (newregs rules)) ?cort"
    then have "find (\<lambda>r. ''%H-'' @ r \<notin> set (newregs rules)) ?cort = None"
      by (simp add: find_None_iff list_all_iff)
    with h show "validate fs_regs rules vep = Inl SubcortCoverageError \<longleftrightarrow>
       \<not> list_all (?cond (newregs rules)) ?subs"
      by (simp add: validate_cases cov)
  qed
  from a b c show ?thesis by blast
qed

theorem subcortical_coverage_witness:
  "\<lparr>cort_flag = 0, reg = ''Thalamus'', reg_color = (7, 8, 9, 0)\<rparr> \<in> set vep_example
   \<and> ''%H-Thalamus'' \<notin> set (newregs rules_cortical)
   \<and> ''Left-Thalamus'' \<notin> set (map name fs_example)
   \<and> validate (map name fs_example) rules_cortical vep_example = Inl SubcortCoverageError
   \<and> check_subcortical (newregs rules_cortical) (map name fs_example) [''Hippocampus''] = Inr ()
   \<and> check_subcortical (newregs rules_cortical) (map name fs_example)
        [''Hippocampus'', ''Thalamus''] = Inl SubcortCoverageError"
proof -
  have v: "validate (map name fs_example) rules_cortical vep_example = Inl SubcortCoverageError"
    by (simp add: vep_example_def fs_example_def validate_def rules_cortical_def newregs_def
        temp_regions_def duplicates_def bool_index_def subcort_covered_def Let_def)
  have n: "newregs rules_cortical = [''%H-Insula'', ''%H-Cuneus'']"
    by (simp add: rules_cortical_def newregs_def temp_regions_def)
  from subcortical_coverage[of "newregs rules_cortical" "map name fs_example" "[''Hippocampus'']"
      "\<lparr>cort_flag = 0, reg = ''Thalamus'', reg_color = (7, 8, 9, 0)\<rparr>" vep_example rules_cortical]
    v
  show ?thesis
    unfolding n by (simp add: vep_example_def fs_example_def subcort_covered_def)
qed

subsection \<open>No file is written when a check fails\<close>

text \<open>
  C6.  When one of the five checks fails, \<^verbatim>\<open>create_luts\<close> raises its error and the four
  output files are as they were: no builder has run.  The error of a check is never the
  lookup error of a builder.  Conversely, whenever the run raises, a check has failed and the
  files are as they were: on the combined LUT they have just got, the builders find every name.
\<close>

theorem validation_fails_before_writing:
  "(validate (map name fs_lut) rules vep = Inl e \<longrightarrow>
      create_luts fs_lut rules vep fl = (Some e, fl) \<and> (\<forall>n. e \<noteq> LookupError n))
   \<and> (fst (create_luts fs_lut rules vep fl) = Some e \<longrightarrow>
      validate (map name fs_lut) rules vep = Inl e \<and> snd (create_luts fs_lut rules vep fl) = fl)"
proof -
  have a: "validate (map name fs_lut) rules vep = Inl e \<longrightarrow>
      create_luts fs_lut rules vep fl = (Some e, fl) \<and> (\<forall>n. e \<noteq> LookupError n)"
    using validate_error_kind[of "map name fs_lut" rules vep e]
    by (simp add: create_luts_def Let_def)
  have b: "fst (create_luts fs_lut rules vep fl) = Some e \<longrightarrow>
      validate (map name fs_lut) rules vep = Inl e \<and> snd (create_luts fs_lut rules vep fl) = fl"
  proof (cases "validate (map name fs_lut) rules vep")
    case (Inl e')
    then show ?thesis by (simp add: create_luts_def Let_def)
  next
    case (Inr u)
    then have "validate (map name fs_lut) rules vep = Inr ()" by simp
    from create_luts_valid[OF this] show ?thesis by simp
  qed
  from a b show ?thesis by blast
qed

text \<open>One run for each of the five checks: each fails and leaves no file.\<close>

theorem validation_fails_before_writing_witness:
  "create_luts fs_example rules_bad vep_dup no_files = (Some MalformedRuleError, no_files)
   \<and> create_luts fs_example rules_example vep_dup no_files =
       (Some (DuplicateColorError
               [((10, 20, 30, 0), ''Insula'', ''Hippocampus''),
                ((40, 50, 60, 0), ''Cuneus'', ''Thalamus''),
                ((10, 20, 30, 0), ''Insula'', ''Amygdala'')]), no_files)
   \<and> create_luts fs_example rules_thalamus vep_example no_files =
       (Some (MissingRuleError ''Insula''), no_files)
   \<and> create_luts fs_example rules_cortical vep_example no_files =
       (Some SubcortCoverageError, no_files)
   \<and> create_luts fs_example rules_example vep_unordered no_files =
       (Some OrderingError, no_files)"
proof -
  have v1: "validate (map name fs_example) rules_bad vep_dup = Inl MalformedRuleError"
    by (simp add: validate_def rules_bad_def newregs_def temp_regions_def Let_def)
  have v2: "validate (map name fs_example) rules_example vep_dup =
      Inl (DuplicateColorError
               [((10, 20, 30, 0), ''Insula'', ''Hippocampus''),
                ((40, 50, 60, 0), ''Cuneus'', ''Thalamus''),
                ((10, 20, 30, 0), ''Insula'', ''Amygdala'')])"
    by (simp add: validate_def rules_example_def vep_dup_def newregs_def temp_regions_def
        duplicates_def Let_def)
  have v4: "validate (map name fs_example) rules_cortical vep_example = Inl SubcortCoverageError"
    by (simp add: vep_example_def fs_example_def validate_def rules_cortical_def newregs_def
        temp_regions_def duplicates_def bool_index_def subcort_covered_def Let_def)
  have v5: "validate (map name fs_example) rules_example vep_unordered = Inl OrderingError"
    by (simp add: vep_unordered_def fs_example_def validate_def rules_example_def newregs_def
        temp_regions_def duplicates_def bool_index_def subcort_covered_def cortical_first_def
        Let_def)
  have c1: "create_luts fs_example rules_bad vep_dup no_files = (Some MalformedRuleError, no_files)"
    using validation_fails_before_writing[of fs_example rules_bad vep_dup MalformedRuleError
        no_files] v1
    by simp
  have c2: "create_luts fs_example rules_example vep_dup no_files =
       (Some (DuplicateColorError
               [((10, 20, 30, 0), ''Insula'', ''Hippocampus''),
                ((40, 50, 60, 0), ''Cuneus'', ''Thalamus''),
                ((10, 20, 30, 0), ''Insula'', ''Amygdala'')]), no_files)"
    using validation_fails_before_writing[of fs_example rules_example vep_dup
        "DuplicateColorError
               [((10, 20, 30, 0), ''Insula'', ''Hippocampus''),
                ((40, 50, 60, 0), ''Cuneus'', ''Thalamus''),
                ((10, 20, 30, 0), ''Insula'', ''Amygdala'')]" no_files] v2
    by simp
  have c3: "create_luts fs_example rules_thalamus vep_example no_files =
       (Some (MissingRuleError ''Insula''), no_files)"
    using validation_fails_before_writing[of fs_example rules_thalamus vep_example
        "MissingRuleError ''Insula''" no_files] validate_thalamus
    by simp
  have c4: "create_luts fs_example rules_cortical vep_example no_files =
       (Some SubcortCoverageError, no_files)"
    using validation_fails_before_writing[of fs_example rules_cortical vep_example
        SubcortCoverageError no_files] v4
    by simp
  have c5: "create_luts fs_example rules_example vep_unordered no_files =
       (Some OrderingError, no_files)"
    using validation_fails_before_writing[of fs_example rules_example vep_unordered
        OrderingError no_files] v5
    by simp
  from c1 c2 c3 c4 c5 show ?thesis by blast
qed

end
